theory Spec2Isabelle
  imports Complex_Main "HOL-Library.Word"
begin

section \<open>The sensor store and the round-robin scheduler\<close>

text \<open>
  The firmware keeps its state in global variables. The part the sensor scheduler touches
  is gathered in the record \<open>thermo\<close>. C \<open>int\<close> variables are modelled as \<open>int\<close>: the
  counters stay between 0 and \<open>SENSOR_TICKS\<close>, the cursor below \<open>MAX_SENSORS\<close>.
  An index outside the four-element array \<open>sensors\<close> is a fault of the model.

  The value of type \<open>float\<close> that the driver returns is modelled by the rational it
  denotes, and the product \<open>t * 10\<close> is taken exactly. This is what single precision
  computes for every reading on the grid of the sensor (\<open>sensor_grid\<close> below: a
  multiple of 1/128 degree of magnitude at most 256, so that \<open>t * 10\<close> has at most 19
  significant bits).
\<close>

definition SENSOR_TICKS :: int where "SENSOR_TICKS = 50"
definition LED_TICKS :: int where "LED_TICKS = 2"
definition MAX_SENSORS :: int where "MAX_SENSORS = 4"
definition ADDR_LEN :: nat where "ADDR_LEN = 8"

datatype fault = OutOfBounds | NullPointer

datatype pin_level = LOW | HIGH

datatype serial_item =
    Print string
  | PrintNum int nat
  | PrintFloat rat
  | Println string

record sensorType =
  addr :: "8 word list"
  temperature :: int

record thermo =
  sensors :: "sensorType list"
  numSensors :: int
  currentSensor :: int
  ledTicks :: int
  sensorTicks :: int
  led_builtin :: pin_level
  serial :: "serial_item list"
  bus_reads :: "(int \<times> rat) list"

text \<open>
  The globals as the C start-up code leaves them: \<open>sensors\<close> with its initialiser (the
  address \<open>""\<close> is eight zero bytes), every other variable zero. \<open>led_builtin\<close> is the
  level \<open>setup\<close> writes to the pin before anything else; \<open>bus_reads\<close> records every call
  of \<open>getTempC\<close> as the slot that was asked and the value that came back.
\<close>

definition power_on :: thermo where
  "power_on = \<lparr> sensors =
       [\<lparr>addr = replicate 8 0, temperature = 1111\<rparr>,
        \<lparr>addr = replicate 8 0, temperature = 2222\<rparr>,
        \<lparr>addr = replicate 8 0, temperature = 3333\<rparr>,
        \<lparr>addr = replicate 8 0, temperature = 4444\<rparr>],
     numSensors = 0, currentSensor = 0, ledTicks = 0, sensorTicks = 0,
     led_builtin = HIGH, serial = [], bus_reads = [] \<rparr>"

definition say :: "serial_item list \<Rightarrow> thermo \<Rightarrow> thermo" where
  "say items s = s\<lparr>serial := serial s @ items\<rparr>"

definition ledOff :: "thermo \<Rightarrow> thermo" where
  "ledOff s = s\<lparr>led_builtin := HIGH\<rparr>"

definition ledOn :: "int \<Rightarrow> thermo \<Rightarrow> thermo" where
  "ledOn ticks s = s\<lparr>ledTicks := ticks, led_builtin := LOW\<rparr>"

definition processLED :: "thermo \<Rightarrow> thermo" where
  "processLED s =
     (if ledTicks s \<noteq> 0 then
        (let s1 = s\<lparr>ledTicks := ledTicks s - 1\<rparr>
         in if ledTicks s1 = 0 then ledOff s1 else s1)
      else s)"

text \<open>The C cast \<open>(int)\<close> of a floating value discards the fractional part.\<close>

definition float_to_int :: "rat \<Rightarrow> int" where
  "float_to_int x = (if 0 \<le> x then \<lfloor>x\<rfloor> else \<lceil>x\<rceil>)"

definition sensor_grid :: "rat \<Rightarrow> bool" where
  "sensor_grid t \<longleftrightarrow> of_int \<lfloor>t * 128\<rfloor> = t * 128 \<and> \<bar>t\<bar> \<le> 256"

definition in_table :: "int \<Rightarrow> bool" where
  "in_table c \<longleftrightarrow> 0 \<le> c \<and> c < MAX_SENSORS"

text \<open>
  \<open>printSensorAddress\<close>: the eight bytes in hexadecimal, a leading \<open>0\<close> for a byte
  below 16; the result says whether the family code is that of a DS18B20.
\<close>

definition print_byte :: "8 word \<Rightarrow> serial_item list" where
  "print_byte b =
     (if b < 16 then [Print ''0''] else []) @ [PrintNum (uint b) 16, Print '' '']"

definition printSensorAddress :: "8 word list \<Rightarrow> int \<times> serial_item list" where
  "printSensorAddress devAddr =
     ((if hd devAddr = 0x28 then 1 else 0), concat (map print_byte (take 8 devAddr)))"

text \<open>
  \<open>initSensors\<close>. The bus is the environment: \<open>deviceCount\<close> is what
  \<open>getDeviceCount\<close> answers and \<open>getAddress c\<close> the eight bytes the driver writes for
  device \<open>c\<close>.
\<close>

definition store_address :: "(int \<Rightarrow> 8 word list) \<Rightarrow> nat \<Rightarrow> thermo \<Rightarrow> thermo" where
  "store_address getAddress c s =
     (let devAddr = getAddress (int c);
          s1 = s\<lparr>sensors := (sensors s)[c := (sensors s ! c)\<lparr>addr := devAddr\<rparr>]\<rparr>;
          (isDs, hex) = printSensorAddress devAddr
      in say ([Print ''    '', PrintNum (int c + 1) 10, Print '' - ''] @ hex @
              [if isDs = 1 then Println ''  (DS18B20)''
               else Println ''  (Unknown device type)'']) s1)"

definition initSensors :: "int \<Rightarrow> (int \<Rightarrow> 8 word list) \<Rightarrow> thermo \<Rightarrow> thermo" where
  "initSensors deviceCount getAddress s =
     (let s1 = s\<lparr>sensorTicks := SENSOR_TICKS, currentSensor := 0, numSensors := deviceCount\<rparr>;
          s2 = say [Println ''Locating temperature sensors... '',
                    Print ''  Support for up to '', PrintNum MAX_SENSORS 10,
                    Println '' devices'', Print ''  Found '',
                    PrintNum (numSensors s1) 10, Println '' devices''] s1;
          s3 = (if numSensors s2 > MAX_SENSORS then
                  (let s' = s2\<lparr>numSensors := MAX_SENSORS\<rparr>
                   in say [Print ''  Using only first '', PrintNum (numSensors s') 10,
                           Println '' devices found''] s')
                else s2)
      in fold (store_address getAddress) [0 ..< nat (numSensors s3)] s3)"

text \<open>
  \<open>processSensors\<close>, one call per tick of \<open>loop\<close>. \<open>disc\<close> is the driver's constant
  \<open>DEVICE_DISCONNECTED_C\<close> and \<open>t\<close> what \<open>getTempC\<close> answers if this tick asks.
\<close>

definition processSensors :: "rat \<Rightarrow> rat \<Rightarrow> thermo \<Rightarrow> fault + thermo" where
  "processSensors disc t s =
     (let s1 = s\<lparr>sensorTicks := sensorTicks s - 1\<rparr>
      in if sensorTicks s1 = 0 then
           (let s2 = ledOn LED_TICKS (s1\<lparr>sensorTicks := SENSOR_TICKS\<rparr>)
            in if numSensors s2 = 0 then
                 Inr (say [Println ''No temperature sensors!!!!''] s2)
               else
                 (let s3 = (if currentSensor s2 = 0
                            then say [Println ''New polling cycle''] s2 else s2);
                      cur = currentSensor s3
                  in if \<not> in_table cur then Inl OutOfBounds
                     else
                       (let s4 = say [Print ''  Sensor '', PrintNum (cur + 1) 10, Print '' - '']
                                   (s3\<lparr>bus_reads := bus_reads s3 @ [(cur, t)]\<rparr>);
                            s5 = (if t = disc then
                                    say [Println ''Error reading temperature''] s4
                                  else
                                    (say [PrintFloat t, Println '' C''] s4)
                                      \<lparr>sensors := (sensors s4)[nat cur :=
                                          (sensors s4 ! nat cur)
                                            \<lparr>temperature := float_to_int (t * 10)\<rparr>]\<rparr>);
                            s6 = s5\<lparr>currentSensor := currentSensor s5 + 1\<rparr>
                        in if currentSensor s6 = numSensors s6 then
                             Inr (say [Println ''''] (s6\<lparr>currentSensor := 0\<rparr>))
                           else Inr s6)))
         else Inr s1)"

text \<open>A run of the scheduler: one driver answer per tick, stopping at the first fault.\<close>

fun run_ticks :: "rat \<Rightarrow> rat list \<Rightarrow> thermo \<Rightarrow> fault + thermo" where
  "run_ticks disc [] s = Inr s"
| "run_ticks disc (t # ts) s =
     (case processSensors disc t s of Inl e \<Rightarrow> Inl e | Inr s' \<Rightarrow> run_ticks disc ts s')"

text \<open>
  Two observers for closed statements. \<open>outcome f r\<close> reads a field of the state a step
  returns. \<open>boundary_state d\<close> is the state 49 ticks after \<open>initSensors\<close> has found \<open>d\<close>
  devices (all with the address zero): the next call of \<open>processSensors\<close> is a cycle
  boundary.
\<close>

definition outcome :: "(thermo \<Rightarrow> 'a) \<Rightarrow> fault + thermo \<Rightarrow> 'a option" where
  "outcome f r = (case r of Inl e \<Rightarrow> None | Inr s \<Rightarrow> Some (f s))"

definition boundary_state :: "int \<Rightarrow> thermo" where
  "boundary_state d = (initSensors d (\<lambda>c. replicate 8 0) power_on)\<lparr>sensorTicks := 1\<rparr>"

text \<open>
  The initialiser of \<open>sensors\<close> gives slot \<open>j\<close> the temperature \<open>1111 * (j + 1)\<close>.
  \<open>read_ok disc i rs\<close>: the log \<open>rs\<close> of driver calls holds a successful read of slot \<open>i\<close>.
\<close>

definition placeholder :: "nat \<Rightarrow> int" where
  "placeholder j = 1111 * (int j + 1)"

definition read_ok :: "rat \<Rightarrow> int \<Rightarrow> (int \<times> rat) list \<Rightarrow> bool" where
  "read_ok disc i rs \<longleftrightarrow> (\<exists>r \<in> set rs. fst r = i \<and> snd r \<noteq> disc)"

section \<open>The management object tree\<close>

text \<open>
  \<open>initMibTree\<close> registers the nodes with the SNMP agent and the three callbacks fill in a
  node's value when the agent asks. The agent itself is a library: of its \<open>MIB\<close> structure
  the model keeps the fields the firmware uses. An object identifier is the list of its
  components. The agent expands the letters \<open>B\<close> and \<open>P\<close> that start the identifier
  strings of the firmware into its own prefixes; both expansions are parameters. A
  callback is a function pointer, here a tag. The value \<open>AddrOf c\<close> is the pointer
  \<open>sensors[c].addr\<close>.
\<close>

datatype mib_type = OCTET_STRING | TIMETICKS | INTEGER

datatype mib_access = RD_ONLY | RD_WRITE

datatype mib_value = NoValue | Intval int | Text string | AddrOf int

datatype mib_callback = cb_getUptime | cb_getTemperature | cb_getSensorAddress

record MIB =
  oid :: "nat list"
  dataType :: mib_type
  access :: mib_access
  uval :: mib_value
  callback :: "mib_callback option"

definition sysDescr :: string where "sysDescr = ''Ed's ESP8266 thermometer''"
definition sysLocation :: string where "sysLocation = ''Isle of Man''"

definition SENSOR_OID :: "nat list \<Rightarrow> nat list" where
  "SENSOR_OID P = P @ [56234, 1, 2, 1]"

text \<open>
  Modelled from the spec: the agent's \<open>miblistadd\<close>, \<open>mibsetvalue\<close> and \<open>mibsetcallback\<close>
  are not in the repository. They are the construction-time operation
  \<open>register(identifier, type, accessMode, staticValue | callback)\<close> of section 4.2:
  \<open>miblistadd\<close> appends a node and returns a handle to it (its position), the other two
  set the value and the callback of the node behind a handle.
\<close>

definition miblistadd ::
    "MIB list \<Rightarrow> nat list \<Rightarrow> mib_type \<Rightarrow> mib_access \<Rightarrow> mib_value \<Rightarrow> MIB list \<times> nat" where
  "miblistadd tree ident ty acc v =
     (tree @ [\<lparr>oid = ident, dataType = ty, access = acc, uval = v, callback = None\<rparr>],
      length tree)"

definition mibsetvalue :: "MIB list \<Rightarrow> nat \<Rightarrow> mib_value \<Rightarrow> MIB list" where
  "mibsetvalue tree p v = tree[p := (tree ! p)\<lparr>uval := v\<rparr>]"

definition mibsetcallback :: "MIB list \<Rightarrow> nat \<Rightarrow> mib_callback \<Rightarrow> MIB list" where
  "mibsetcallback tree p cb = tree[p := (tree ! p)\<lparr>callback := Some cb\<rparr>]"

text \<open>One round of the loop of \<open>initMibTree\<close>, for the sensor in slot \<open>c\<close>.\<close>

definition add_sensor_nodes :: "nat list \<Rightarrow> nat \<Rightarrow> MIB list \<Rightarrow> MIB list" where
  "add_sensor_nodes P c tree =
     (let oidIndex = c + 1;
          (t1, a) = miblistadd tree (SENSOR_OID P @ [2, oidIndex]) OCTET_STRING RD_ONLY
                      (AddrOf (int c));
          t2 = mibsetcallback t1 a cb_getSensorAddress;
          (t3, b) = miblistadd t2 (SENSOR_OID P @ [3, oidIndex]) INTEGER RD_ONLY NoValue;
          t4 = mibsetvalue t3 b (Intval 0)
      in mibsetcallback t4 b cb_getTemperature)"

definition initMibTree :: "nat list \<Rightarrow> nat list \<Rightarrow> thermo \<Rightarrow> MIB list \<Rightarrow> MIB list" where
  "initMibTree B P s mibTree =
     (let (t1, d) = miblistadd mibTree (B @ [1, 1, 0]) OCTET_STRING RD_ONLY (Text sysDescr);
          (t2, up) = miblistadd t1 (B @ [1, 3, 0]) TIMETICKS RD_ONLY NoValue;
          t3 = mibsetvalue t2 up (Intval 0);
          t4 = mibsetcallback t3 up cb_getUptime;
          (t5, l) = miblistadd t4 (B @ [1, 6, 0]) OCTET_STRING RD_ONLY (Text sysLocation)
      in fold (add_sensor_nodes P) [0 ..< nat (numSensors s)] t5)"

text \<open>
  The callbacks. \<open>getUptime\<close> divides the millisecond clock, an \<open>unsigned long\<close>, by ten.
  \<open>getTemperature\<close> and \<open>getSensorAddress\<close> take the last component of the node's
  identifier and subtract one; \<open>getTemperature\<close> then reads \<open>sensors[c]\<close>, a fault of the
  model outside the table.
\<close>

definition getUptime :: "32 word \<Rightarrow> MIB \<Rightarrow> fault + MIB" where
  "getUptime now thisMib = Inr (thisMib\<lparr>uval := Intval (uint (now div 10))\<rparr>)"

definition getTemperature :: "thermo \<Rightarrow> MIB \<Rightarrow> fault + MIB" where
  "getTemperature s thisMib =
     (if oid thisMib = [] then Inl OutOfBounds
      else
        (let c = int (last (oid thisMib)) - 1
         in if in_table c then Inr (thisMib\<lparr>uval := Intval (temperature (sensors s ! nat c))\<rparr>)
            else Inl OutOfBounds))"

definition getSensorAddress :: "MIB \<Rightarrow> fault + MIB" where
  "getSensorAddress thisMib =
     (if oid thisMib = [] then Inl OutOfBounds
      else Inr (thisMib\<lparr>uval := AddrOf (int (last (oid thisMib)) - 1)\<rparr>))"

text \<open>
  Modelled from the spec: \<open>resolve(identifier) -> (type, value) | NotFound\<close> of section 4.2,
  the agent's lookup, which is not in the repository. It takes the first registered node
  with the identifier and, if the node has a callback, calls it before the value is read.
\<close>

fun invoke :: "mib_callback \<Rightarrow> thermo \<Rightarrow> 32 word \<Rightarrow> MIB \<Rightarrow> fault + MIB" where
  "invoke cb_getUptime s now n = getUptime now n"
| "invoke cb_getTemperature s now n = getTemperature s n"
| "invoke cb_getSensorAddress s now n = getSensorAddress n"

definition resolve ::
    "MIB list \<Rightarrow> thermo \<Rightarrow> 32 word \<Rightarrow> nat list \<Rightarrow> fault + (mib_type \<times> mib_value) option" where
  "resolve tree s now ident =
     (case find (\<lambda>n. oid n = ident) tree of
        None \<Rightarrow> Inr None
      | Some n \<Rightarrow>
          (case callback n of
             None \<Rightarrow> Inr (Some (dataType n, uval n))
           | Some cb \<Rightarrow>
               (case invoke cb s now n of
                  Inl e \<Rightarrow> Inl e
                | Inr n' \<Rightarrow> Inr (Some (dataType n', uval n')))))"

text \<open>The nodes \<open>initMibTree\<close> builds, written out.\<close>

definition address_node :: "nat list \<Rightarrow> nat \<Rightarrow> MIB" where
  "address_node P c = \<lparr>oid = SENSOR_OID P @ [2, c + 1], dataType = OCTET_STRING,
     access = RD_ONLY, uval = AddrOf (int c), callback = Some cb_getSensorAddress\<rparr>"

definition temperature_node :: "nat list \<Rightarrow> nat \<Rightarrow> MIB" where
  "temperature_node P c = \<lparr>oid = SENSOR_OID P @ [3, c + 1], dataType = INTEGER,
     access = RD_ONLY, uval = Intval 0, callback = Some cb_getTemperature\<rparr>"

definition system_nodes :: "nat list \<Rightarrow> MIB list" where
  "system_nodes B =
     [\<lparr>oid = B @ [1, 1, 0], dataType = OCTET_STRING, access = RD_ONLY,
        uval = Text sysDescr, callback = None\<rparr>,
      \<lparr>oid = B @ [1, 3, 0], dataType = TIMETICKS, access = RD_ONLY,
        uval = Intval 0, callback = Some cb_getUptime\<rparr>,
      \<lparr>oid = B @ [1, 6, 0], dataType = OCTET_STRING, access = RD_ONLY,
        uval = Text sysLocation, callback = None\<rparr>]"

section \<open>The configuration store and the two web servers\<close>

text \<open>
  Characters are bytes (\<open>char\<close>), a \<open>char\<close> array is the list of its elements and a
  pointer into \<open>httpRequest\<close> is an offset, \<open>None\<close> for \<open>NULL\<close>. The record
  \<open>eepromType\<close> is the structure of the same name; what the EEPROM holds is taken as a
  value of this type, the copy byte by byte in \<open>getConfig\<close> and \<open>saveConfig\<close> being the
  identity at this level. \<open>sizeof(eepromData)\<close> is a parameter of \<open>getConfig\<close>.
\<close>

definition NUL :: char where "NUL = CHR 0x00"
definition LF :: char where "LF = CHR 0x0A"
definition CR :: char where "CR = CHR 0x0D"

definition DEFAULT_SSID :: string where "DEFAULT_SSID = ''ballacurmudgeon''"
definition DEFAULT_PSK :: string where "DEFAULT_PSK = ''scaramanga''"
definition RO_COMMUNITY :: string where "RO_COMMUNITY = ''public''"
definition EEPROM_VALID :: "16 word" where "EEPROM_VALID = 0x2367"
definition HTTP_REQUEST_LEN :: nat where "HTTP_REQUEST_LEN = 255"
definition HTTP_PARAMS_LEN :: nat where "HTTP_PARAMS_LEN = 16"

record eepromType =
  eepromSize :: int
  staSSID :: string
  staPSK :: string
  roCommunity :: string
  dataValid :: "16 word"

text \<open>
  The globals of the web servers. \<open>eeprom_commits\<close> records every \<open>saveConfig\<close>: the
  number of bytes written from the start of the record and the record they were taken
  from. \<open>strtok_next\<close> is the position \<open>strtok\<close> keeps between calls. \<open>http_log\<close>
  records the handlers that ran and the calls of \<open>flush\<close> and \<open>stop\<close> on the client; the
  text of the pages is left out.
\<close>

datatype http_event = Handler string | Flush | Stop

record web =
  eepromData :: eepromType
  eeprom_commits :: "(int \<times> eepromType) list"
  httpRequest :: string
  httpParams :: "nat option list"
  strtok_next :: "nat option"
  http_log :: "http_event list"
  web_serial :: "serial_item list"

definition wsay :: "serial_item list \<Rightarrow> web \<Rightarrow> web" where
  "wsay items w = w\<lparr>web_serial := web_serial w @ items\<rparr>"

definition hlog :: "http_event list \<Rightarrow> web \<Rightarrow> web" where
  "hlog evs w = w\<lparr>http_log := http_log w @ evs\<rparr>"

text \<open>
  The C library on these arrays. \<open>cstr buf\<close> is the string that starts \<open>buf\<close>, up to the
  first NUL; \<open>cstr_at buf p\<close> the string at offset \<open>p\<close>, a fault if no NUL follows inside
  the array. \<open>strcpy dst src\<close> writes \<open>src\<close> and a NUL over the start of \<open>dst\<close>, a fault
  if they do not fit (the C code would then write into what follows the array). \<open>strtok buf str saved delim\<close> follows the C standard: it starts at
  \<open>str\<close>, or at the saved position when \<open>str\<close> is \<open>NULL\<close>, skips delimiters, returns
  \<open>NULL\<close> at the end of the string, and otherwise overwrites the delimiter that ends the
  token with NUL and saves the position after it. The result is the token, the array and
  the saved position.
\<close>

definition cstr :: "string \<Rightarrow> string" where
  "cstr buf = takeWhile (\<lambda>c. c \<noteq> NUL) buf"

definition cstr_at :: "string \<Rightarrow> nat \<Rightarrow> fault + string" where
  "cstr_at buf p =
     (if NUL \<in> set (drop p buf) then Inr (cstr (drop p buf)) else Inl OutOfBounds)"

definition strcpy :: "string \<Rightarrow> string \<Rightarrow> fault + string" where
  "strcpy dst src =
     (if length src < length dst then Inr (src @ NUL # drop (length src + 1) dst)
      else Inl OutOfBounds)"

definition strtok ::
    "string \<Rightarrow> nat option \<Rightarrow> nat option \<Rightarrow> string \<Rightarrow> fault + (nat option \<times> string \<times> nat option)" where
  "strtok buf str saved delim =
     (case (case str of Some p \<Rightarrow> Some p | None \<Rightarrow> saved) of
        None \<Rightarrow> Inr (None, buf, None)
      | Some p \<Rightarrow>
          (let start = p + length (takeWhile (\<lambda>c. c \<in> set delim) (drop p buf))
           in if length buf \<le> start then Inl OutOfBounds
              else if buf ! start = NUL then Inr (None, buf, None)
              else
                (let e = start + length (takeWhile (\<lambda>c. c \<notin> set delim \<and> c \<noteq> NUL)
                                           (drop start buf))
                 in if length buf \<le> e then Inl OutOfBounds
                    else if buf ! e = NUL then Inr (Some start, buf, None)
                    else Inr (Some start, buf[e := NUL], Some (e + 1)))))"

text \<open>
  \<open>getConfig\<close> and \<open>saveConfig\<close>. \<open>stored\<close> is the record the EEPROM holds at boot.
\<close>

definition getConfig :: "int \<Rightarrow> eepromType \<Rightarrow> web \<Rightarrow> fault + web" where
  "getConfig eepromSize' stored w =
     (let w1 = wsay [Print ''Reading '', PrintNum eepromSize' 10, Println '' bytes from EEPROM''] w;
          w2 = w1\<lparr>eepromData := stored\<rparr>
      in if eepromSize (eepromData w2) = eepromSize' \<and> dataValid (eepromData w2) = EEPROM_VALID
         then Inr (wsay [Println ''  Found valid configuration''] w2)
         else
           (let w3 = wsay [Println ''  No configuration found in EEPROM'',
                           Println ''  Using default configuration''] w2;
                d = eepromData w3
            in case strcpy (staSSID d) DEFAULT_SSID of Inl e \<Rightarrow> Inl e | Inr ssid \<Rightarrow>
               (case strcpy (staPSK d) DEFAULT_PSK of Inl e \<Rightarrow> Inl e | Inr psk \<Rightarrow>
               (case strcpy (roCommunity d) RO_COMMUNITY of Inl e \<Rightarrow> Inl e | Inr com \<Rightarrow>
                  Inr (w3\<lparr>eepromData := \<lparr>eepromSize = eepromSize', staSSID = ssid, staPSK = psk,
                                         roCommunity = com, dataValid = EEPROM_VALID\<rparr>\<rparr>)))))"

definition saveConfig :: "web \<Rightarrow> web" where
  "saveConfig w =
     (let w1 = wsay [Print ''Writing '', PrintNum (eepromSize (eepromData w)) 10,
                     Println '' bytes to EEPROM''] w
      in w1\<lparr>eeprom_commits := eeprom_commits w1 @ [(eepromSize (eepromData w1), eepromData w1)]\<rparr>)"

text \<open>The handlers of the configuration pages and of the parameters of \<open>config.html\<close>.\<close>

definition httpResetConfiguration :: "web \<Rightarrow> fault + web" where
  "httpResetConfiguration w =
     (let w1 = hlog [Handler ''httpResetConfiguration''] w; d = eepromData w1
      in case strcpy (staSSID d) DEFAULT_SSID of Inl e \<Rightarrow> Inl e | Inr ssid \<Rightarrow>
         (case strcpy (staPSK d) DEFAULT_PSK of Inl e \<Rightarrow> Inl e | Inr psk \<Rightarrow>
         (case strcpy (roCommunity d) RO_COMMUNITY of Inl e \<Rightarrow> Inl e | Inr com \<Rightarrow>
            Inr (w1\<lparr>eepromData := d\<lparr>staSSID := ssid, staPSK := psk, roCommunity := com\<rparr>\<rparr>))))"

definition httpConfigPage :: "web \<Rightarrow> fault + web" where
  "httpConfigPage w = Inr (hlog [Handler ''httpConfigPage''] w)"

definition httpNotFound :: "web \<Rightarrow> web" where
  "httpNotFound w = hlog [Handler ''httpNotFound''] w"

definition httpSetSsid :: "nat option \<Rightarrow> web \<Rightarrow> fault + web" where
  "httpSetSsid ssid w =
     (case ssid of None \<Rightarrow> Inl NullPointer | Some p \<Rightarrow>
        (case cstr_at (httpRequest w) p of Inl e \<Rightarrow> Inl e | Inr src \<Rightarrow>
           (case strcpy (staSSID (eepromData w)) src of Inl e \<Rightarrow> Inl e | Inr dst \<Rightarrow>
              Inr (w\<lparr>eepromData := (eepromData w)\<lparr>staSSID := dst\<rparr>\<rparr>))))"

definition httpSetPassword :: "nat option \<Rightarrow> web \<Rightarrow> fault + web" where
  "httpSetPassword password w =
     (case password of None \<Rightarrow> Inl NullPointer | Some p \<Rightarrow>
        (case cstr_at (httpRequest w) p of Inl e \<Rightarrow> Inl e | Inr src \<Rightarrow>
           (case strcpy (staPSK (eepromData w)) src of Inl e \<Rightarrow> Inl e | Inr dst \<Rightarrow>
              Inr (w\<lparr>eepromData := (eepromData w)\<lparr>staPSK := dst\<rparr>\<rparr>))))"

definition httpSetRoCommunity :: "nat option \<Rightarrow> web \<Rightarrow> fault + web" where
  "httpSetRoCommunity community w =
     (case community of None \<Rightarrow> Inl NullPointer | Some p \<Rightarrow>
        (case cstr_at (httpRequest w) p of Inl e \<Rightarrow> Inl e | Inr src \<Rightarrow>
           (case strcpy (roCommunity (eepromData w)) src of Inl e \<Rightarrow> Inl e | Inr dst \<Rightarrow>
              Inr (w\<lparr>eepromData := (eepromData w)\<lparr>roCommunity := dst\<rparr>\<rparr>))))"

text \<open>
  The two tables of function pointers. The loops over them stop at the first entry whose
  name compares equal, as \<open>find\<close> does; \<open>strcmp\<close> with a null pointer is a fault.
\<close>

datatype param_handler = SetSsid | SetPassword | SetRoCommunity

datatype get_handler = ResetConfiguration | SaveConfiguration | ConfigPage

definition httpParamHandlers :: "(string \<times> param_handler) list" where
  "httpParamHandlers =
     [(''ssid'', SetSsid), (''password'', SetPassword), (''community'', SetRoCommunity)]"

definition getRequests :: "(string \<times> get_handler) list" where
  "getRequests =
     [(''/reset.html'', ResetConfiguration), (''/config.html'', SaveConfiguration),
      (''/'', ConfigPage)]"

fun call_param_handler :: "param_handler \<Rightarrow> nat option \<Rightarrow> web \<Rightarrow> fault + web" where
  "call_param_handler SetSsid v w = httpSetSsid v w"
| "call_param_handler SetPassword v w = httpSetPassword v w"
| "call_param_handler SetRoCommunity v w = httpSetRoCommunity v w"

definition shown :: "string \<Rightarrow> nat option \<Rightarrow> string" where
  "shown buf p = (case p of None \<Rightarrow> [] | Some q \<Rightarrow> cstr (drop q buf))"

definition httpParseParam :: "nat option \<Rightarrow> nat option \<Rightarrow> web \<Rightarrow> fault + web" where
  "httpParseParam paramName paramValue w =
     (let w1 = wsay [Print ''Trying to set '', Print (shown (httpRequest w) paramName),
                     Print '' to '', Println (shown (httpRequest w) paramValue)] w
      in case paramName of None \<Rightarrow> Inl NullPointer | Some p \<Rightarrow>
           (case cstr_at (httpRequest w1) p of Inl e \<Rightarrow> Inl e | Inr name \<Rightarrow>
              (case find (\<lambda>h. fst h = name) httpParamHandlers of
                 Some h \<Rightarrow> call_param_handler (snd h) paramValue w1
               | None \<Rightarrow> Inr (wsay [Print ''Bad parameter''] w1))))"

text \<open>One round of the loop of \<open>httpSaveConfiguration\<close>, for \<open>httpParams[c]\<close>.\<close>

definition save_param :: "nat \<Rightarrow> web \<Rightarrow> fault + web" where
  "save_param c w =
     (case strtok (httpRequest w) (httpParams w ! c) (strtok_next w) ''='' of
        Inl e \<Rightarrow> Inl e
      | Inr (paramName, buf1, next1) \<Rightarrow>
          (case strtok buf1 None next1 ''='' of
             Inl e \<Rightarrow> Inl e
           | Inr (paramValue, buf2, next2) \<Rightarrow>
               httpParseParam paramName paramValue
                 (w\<lparr>httpRequest := buf2, strtok_next := next2\<rparr>)))"

definition httpSaveConfiguration :: "web \<Rightarrow> fault + web" where
  "httpSaveConfiguration w =
     (case save_param 1 (hlog [Handler ''httpSaveConfiguration''] w) of Inl e \<Rightarrow> Inl e | Inr w1 \<Rightarrow>
     (case save_param 2 w1 of Inl e \<Rightarrow> Inl e | Inr w2 \<Rightarrow>
     (case save_param 3 w2 of Inl e \<Rightarrow> Inl e | Inr w3 \<Rightarrow> Inr (saveConfig w3))))"

fun call_get_handler :: "get_handler \<Rightarrow> web \<Rightarrow> fault + web" where
  "call_get_handler ResetConfiguration w = httpResetConfiguration w"
| "call_get_handler SaveConfiguration w = httpSaveConfiguration w"
| "call_get_handler ConfigPage w = httpConfigPage w"

text \<open>
  The first loop of \<open>httpHandleGetRequest\<close>: every token of the request goes into
  \<open>httpParams\<close>, which has room for sixteen.
\<close>

function store_tokens :: "nat \<Rightarrow> nat option \<Rightarrow> web \<Rightarrow> fault + web" where
  "store_tokens c None w = Inr w"
| "store_tokens c (Some p) w =
     (if HTTP_PARAMS_LEN \<le> c then Inl OutOfBounds
      else
        (let w1 = wsay [Print ''Param '', PrintNum (int c) 10, Print '': '',
                        Println (cstr (drop p (httpRequest w)))]
                    (w\<lparr>httpParams := (httpParams w)[c := Some p]\<rparr>)
         in case strtok (httpRequest w1) None (strtok_next w1) ''?& '' of
              Inl e \<Rightarrow> Inl e
            | Inr (tokPtr, buf, nxt) \<Rightarrow>
                store_tokens (c + 1) tokPtr (w1\<lparr>httpRequest := buf, strtok_next := nxt\<rparr>)))"
  by pat_completeness auto
termination
  by (relation "measure (\<lambda>(c, tokPtr, w). HTTP_PARAMS_LEN - c)") auto

definition httpHandleGetRequest :: "nat \<Rightarrow> web \<Rightarrow> fault + web" where
  "httpHandleGetRequest url w =
     (case strtok (httpRequest w) (Some url) (strtok_next w) ''?& '' of
        Inl e \<Rightarrow> Inl e
      | Inr (tokPtr, buf, nxt) \<Rightarrow>
          (case store_tokens 0 tokPtr (w\<lparr>httpRequest := buf, strtok_next := nxt\<rparr>) of
             Inl e \<Rightarrow> Inl e
           | Inr w1 \<Rightarrow>
               (case httpParams w1 ! 0 of
                  None \<Rightarrow> Inl NullPointer
                | Some p \<Rightarrow>
                    (case cstr_at (httpRequest w1) p of
                       Inl e \<Rightarrow> Inl e
                     | Inr name \<Rightarrow>
                         (case find (\<lambda>h. fst h = name) getRequests of
                            None \<Rightarrow> Inr (httpNotFound w1)
                          | Some h \<Rightarrow> call_get_handler (snd h) w1)))))"

text \<open>
  The network is the environment. A connection is the list of what the loop finds each
  time round while the client is connected: \<open>Avail now c\<close>, a byte \<open>c\<close> to read, or
  \<open>Quiet now\<close>, nothing to read, \<open>now\<close> being what \<open>millis()\<close> returns in that round, an
  \<open>unsigned long\<close> of 32 bits. When the list ends the client has gone. \<open>urlPtr\<close> is the
  offset of the write pointer in \<open>httpRequest\<close>, an array of 255 bytes; a write at offset
  255 or beyond is a fault of the model.

  \<open>httpWebServer_client\<close> is the inner loop of \<open>httpWebServer\<close>, one connection of the
  configuration mode; it returns \<open>ms\<close> as well, which that server keeps from one
  connection to the next. \<open>httpStatusGetRequest_loop\<close> is the loop of
  \<open>httpStatusGetRequest\<close>.
\<close>

datatype poll = Avail "32 word" char | Quiet "32 word"

fun httpWebServer_client :: "poll list \<Rightarrow> nat \<Rightarrow> 32 word \<Rightarrow> web \<Rightarrow> fault + web \<times> 32 word" where
  "httpWebServer_client [] urlPtr ms w = Inr (w, ms)"
| "httpWebServer_client (Avail now c # ps) urlPtr ms w =
     (if c = LF then
        (if HTTP_REQUEST_LEN \<le> urlPtr then Inl OutOfBounds
         else
           (let w1 = w\<lparr>httpRequest := (httpRequest w)[urlPtr := NUL]\<rparr>;
                w2 = wsay [Println (cstr (httpRequest w1))] w1
            in case (if take 3 (cstr (httpRequest w2)) = ''GET''
                     then httpHandleGetRequest 4 w2 else Inr w2) of
                 Inl e \<Rightarrow> Inl e
               | Inr w3 \<Rightarrow> Inr (hlog [Flush, Stop] w3, now)))
      else if c \<noteq> CR then
        (if HTTP_REQUEST_LEN \<le> urlPtr then Inl OutOfBounds
         else httpWebServer_client ps (urlPtr + 1) now
                (w\<lparr>httpRequest := (httpRequest w)[urlPtr := c]\<rparr>))
      else httpWebServer_client ps urlPtr now w)"
| "httpWebServer_client (Quiet now # ps) urlPtr ms w =
     (if ms - now > 2000 then
        Inr (hlog [Stop] (wsay [Println ''HTTP idle timeout''] w), ms)
      else httpWebServer_client ps urlPtr ms w)"

fun httpWebServer_clients :: "poll list list \<Rightarrow> 32 word \<Rightarrow> web \<Rightarrow> fault + web \<times> 32 word" where
  "httpWebServer_clients [] ms w = Inr (w, ms)"
| "httpWebServer_clients (ps # rest) ms w =
     (case httpWebServer_client ps 0 ms w of
        Inl e \<Rightarrow> Inl e
      | Inr (w1, ms1) \<Rightarrow> httpWebServer_clients rest ms1 (wsay [Println ''Disconnected''] w1))"

definition httpWebServer :: "32 word \<Rightarrow> poll list list \<Rightarrow> web \<Rightarrow> fault + web \<times> 32 word" where
  "httpWebServer start clients w =
     httpWebServer_clients clients start (wsay [Println ''  Starting webserver...''] w)"

definition httpStatusPage :: "nat \<Rightarrow> web \<Rightarrow> fault + web" where
  "httpStatusPage url w =
     (case strtok (httpRequest w) (Some url) (strtok_next w) ''?& '' of
        Inl e \<Rightarrow> Inl e
      | Inr (filename, buf, nxt) \<Rightarrow>
          (let w1 = hlog [Handler ''httpStatusPage'']
                      (w\<lparr>httpRequest := buf, strtok_next := nxt\<rparr>)
           in case filename of
                None \<Rightarrow> Inl NullPointer
              | Some p \<Rightarrow>
                  (case cstr_at (httpRequest w1) p of
                     Inl e \<Rightarrow> Inl e
                   | Inr name \<Rightarrow>
                       (if name \<noteq> ''/'' then Inr (httpNotFound w1) else Inr w1))))"

fun httpStatusGetRequest_loop :: "poll list \<Rightarrow> nat \<Rightarrow> 32 word \<Rightarrow> web \<Rightarrow> fault + web" where
  "httpStatusGetRequest_loop [] urlPtr ms w = Inr w"
| "httpStatusGetRequest_loop (Avail now c # ps) urlPtr ms w =
     (if c = LF then
        (if HTTP_REQUEST_LEN \<le> urlPtr then Inl OutOfBounds
         else
           (let w1 = w\<lparr>httpRequest := (httpRequest w)[urlPtr := NUL]\<rparr>;
                w2 = wsay [Println (cstr (httpRequest w1))] w1
            in case (if take 3 (cstr (httpRequest w2)) = ''GET''
                     then httpStatusPage 4 w2 else Inr w2) of
                 Inl e \<Rightarrow> Inl e
               | Inr w3 \<Rightarrow> Inr (hlog [Flush, Stop] w3)))
      else if c \<noteq> CR then
        (if HTTP_REQUEST_LEN \<le> urlPtr then Inl OutOfBounds
         else httpStatusGetRequest_loop ps (urlPtr + 1) now
                (w\<lparr>httpRequest := (httpRequest w)[urlPtr := c]\<rparr>))
      else httpStatusGetRequest_loop ps urlPtr now w)"
| "httpStatusGetRequest_loop (Quiet now # ps) urlPtr ms w =
     (if now - ms > 2000 then
        Inr (hlog [Stop] (wsay [Println ''HTTP idle timeout''] w))
      else httpStatusGetRequest_loop ps urlPtr ms w)"

definition httpStatusGetRequest :: "32 word \<Rightarrow> poll list \<Rightarrow> web \<Rightarrow> fault + web" where
  "httpStatusGetRequest start ps w =
     (case httpStatusGetRequest_loop ps 0 start
             (wsay [Println ''Client connected to webserver''] w) of
        Inl e \<Rightarrow> Inl e
      | Inr w1 \<Rightarrow> Inr (wsay [Println ''Disconnected''] w1))"

text \<open>
  A concrete device for the closed statements: the web globals at reset, an erased
  EEPROM, the state \<open>config_mode\<close> in which \<open>getConfig\<close> leaves them for a record of 200
  bytes, and a connection that delivers \<open>bytes\<close>, all in the round in which \<open>millis()\<close> is
  \<open>now\<close>. \<open>save_line\<close> is the request line of the save action.
\<close>

definition erased :: eepromType where
  "erased = \<lparr>eepromSize = -1, staSSID = replicate 64 (CHR 0xFF), staPSK = replicate 64 (CHR 0xFF),
     roCommunity = replicate 64 (CHR 0xFF), dataValid = 0xFFFF\<rparr>"

definition web_reset :: web where
  "web_reset = \<lparr>eepromData = \<lparr>eepromSize = 0, staSSID = replicate 64 NUL,
       staPSK = replicate 64 NUL, roCommunity = replicate 64 NUL, dataValid = 0\<rparr>,
     eeprom_commits = [], httpRequest = replicate 255 NUL, httpParams = replicate 16 None,
     strtok_next = None, http_log = [], web_serial = []\<rparr>"

definition deliver :: "32 word \<Rightarrow> string \<Rightarrow> poll list" where
  "deliver now bytes = map (Avail now) bytes"

definition save_line :: string where
  "save_line = ''GET /config.html?ssid=MyNet&password=Secret&community=public HTTP/1.1''"

definition config_mode :: web where
  "config_mode =
     (wsay [Print ''Reading '', PrintNum 200 10, Println '' bytes from EEPROM'',
            Println ''  No configuration found in EEPROM'',
            Println ''  Using default configuration''] web_reset)
       \<lparr>eepromData := \<lparr>eepromSize = 200,
          staSSID = DEFAULT_SSID @ NUL # replicate 48 (CHR 0xFF),
          staPSK = DEFAULT_PSK @ NUL # replicate 53 (CHR 0xFF),
          roCommunity = RO_COMMUNITY @ NUL # replicate 57 (CHR 0xFF),
          dataValid = EEPROM_VALID\<rparr>\<rparr>"

section \<open>Properties of the scheduler\<close>

lemma say_fields [simp]:
  "sensors (say xs s) = sensors s" "numSensors (say xs s) = numSensors s"
  "currentSensor (say xs s) = currentSensor s" "ledTicks (say xs s) = ledTicks s"
  "sensorTicks (say xs s) = sensorTicks s" "led_builtin (say xs s) = led_builtin s"
  "bus_reads (say xs s) = bus_reads s" "serial (say xs s) = serial s @ xs"
  by (simp_all add: say_def)

lemma ledOn_fields [simp]:
  "sensors (ledOn n s) = sensors s" "numSensors (ledOn n s) = numSensors s"
  "currentSensor (ledOn n s) = currentSensor s" "ledTicks (ledOn n s) = n"
  "sensorTicks (ledOn n s) = sensorTicks s" "led_builtin (ledOn n s) = LOW"
  "bus_reads (ledOn n s) = bus_reads s" "serial (ledOn n s) = serial s"
  by (simp_all add: ledOn_def)

lemma processSensors_idle:
  "sensorTicks s \<noteq> 1 \<Longrightarrow> processSensors disc t s = Inr (s\<lparr>sensorTicks := sensorTicks s - 1\<rparr>)"
  by (simp add: processSensors_def Let_def)

lemma run_ticks_idle:
  "int (length ts) < sensorTicks s \<Longrightarrow>
   run_ticks disc ts s = Inr (s\<lparr>sensorTicks := sensorTicks s - int (length ts)\<rparr>)"
proof (induction ts arbitrary: s)
  case Nil
  then show ?case by simp
next
  case (Cons t ts)
  then show ?case by (simp add: processSensors_idle)
qed

lemma run_ticks_append:
  "run_ticks disc (ts @ us) s =
     (case run_ticks disc ts s of Inl e \<Rightarrow> Inl e | Inr s' \<Rightarrow> run_ticks disc us s')"
  by (induction ts arbitrary: s) (auto split: sum.splits)

lemma processSensors_boundary:
  assumes "sensorTicks s = 1" and "0 \<le> currentSensor s" and "currentSensor s < numSensors s"
    and "numSensors s \<le> MAX_SENSORS"
  shows "\<exists>s'. processSensors disc t s = Inr s' \<and> sensorTicks s' = SENSOR_TICKS \<and>
           numSensors s' = numSensors s \<and>
           currentSensor s' = (if currentSensor s + 1 = numSensors s then 0 else currentSensor s + 1) \<and>
           bus_reads s' = bus_reads s @ [(currentSensor s, t)]"
  using assms by (simp add: processSensors_def Let_def in_table_def)

lemma one_cycle:
  assumes "sensorTicks s = SENSOR_TICKS" and "length ts = 50"
    and "0 \<le> currentSensor s" and "currentSensor s < numSensors s"
    and "numSensors s \<le> MAX_SENSORS"
  shows "\<exists>s'. run_ticks disc ts s = Inr s' \<and> sensorTicks s' = SENSOR_TICKS \<and>
           numSensors s' = numSensors s \<and>
           currentSensor s' = (if currentSensor s + 1 = numSensors s then 0 else currentSensor s + 1) \<and>
           bus_reads s' = bus_reads s @ [(currentSensor s, last ts)]"
proof -
  from assms(2) have ne: "ts \<noteq> []" by auto
  then have split: "ts = butlast ts @ [last ts]" by simp
  have len: "length (butlast ts) = 49" using assms(2) by simp
  define m where "m = s\<lparr>sensorTicks := sensorTicks s - int (length (butlast ts))\<rparr>"
  have idle: "run_ticks disc (butlast ts) s = Inr m"
    unfolding m_def by (rule run_ticks_idle) (simp add: assms(1,2) SENSOR_TICKS_def)
  have m1: "sensorTicks m = 1" "currentSensor m = currentSensor s"
      "numSensors m = numSensors s" "bus_reads m = bus_reads s"
    by (simp_all add: m_def assms(1,2) SENSOR_TICKS_def)
  obtain s' where s': "processSensors disc (last ts) m = Inr s'"
      "sensorTicks s' = SENSOR_TICKS" "numSensors s' = numSensors s"
      "currentSensor s' = (if currentSensor s + 1 = numSensors s then 0 else currentSensor s + 1)"
      "bus_reads s' = bus_reads s @ [(currentSensor s, last ts)]"
    using processSensors_boundary [of m disc "last ts"] m1 assms(3-5) by auto
  have "run_ticks disc ts s = run_ticks disc (butlast ts @ [last ts]) s"
    using split by simp
  also have "\<dots> = Inr s'"
    unfolding run_ticks_append idle by (simp add: s'(1))
  finally show ?thesis using s' by blast
qed

lemma cycles:
  assumes "sensorTicks s = SENSOR_TICKS" and "currentSensor s = 0"
    and "numSensors s \<le> MAX_SENSORS" and "int j \<le> numSensors s"
    and "length ts = j * 50"
  shows "\<exists>s'. run_ticks disc ts s = Inr s' \<and> sensorTicks s' = SENSOR_TICKS \<and>
           numSensors s' = numSensors s \<and>
           currentSensor s' = (if int j = numSensors s then 0 else int j) \<and>
           map fst (bus_reads s') = map fst (bus_reads s) @ map int [0 ..< j]"
  using assms
proof (induction j arbitrary: ts)
  case 0
  then show ?case by simp
next
  case (Suc j)
  let ?a = "take (j * 50) ts" and ?b = "drop (j * 50) ts"
  have la: "length ?a = j * 50" and lb: "length ?b = 50"
    using Suc.prems(5) by simp_all
  from Suc.prems have jn: "int j < numSensors s" by simp
  obtain m where m: "run_ticks disc ?a s = Inr m" "sensorTicks m = SENSOR_TICKS"
      "numSensors m = numSensors s" "currentSensor m = int j"
      "map fst (bus_reads m) = map fst (bus_reads s) @ map int [0 ..< j]"
    using Suc.IH [OF Suc.prems(1-3) _ la] jn by auto
  obtain s' where s': "run_ticks disc ?b m = Inr s'" "sensorTicks s' = SENSOR_TICKS"
      "numSensors s' = numSensors m"
      "currentSensor s' = (if currentSensor m + 1 = numSensors m then 0 else currentSensor m + 1)"
      "bus_reads s' = bus_reads m @ [(currentSensor m, last ?b)]"
    using one_cycle [OF m(2) lb, of disc] m(3,4) jn Suc.prems(3) by auto
  have "run_ticks disc ts s = run_ticks disc (?a @ ?b) s" by simp
  also have "\<dots> = Inr s'"
    unfolding run_ticks_append by (simp add: m(1) s'(1))
  finally have "run_ticks disc ts s = Inr s'" .
  moreover have "currentSensor s' = (if int (Suc j) = numSensors s then 0 else int (Suc j))"
    using s'(4) m(3,4) by auto
  moreover have "map fst (bus_reads s') = map fst (bus_reads s) @ map int [0 ..< Suc j]"
    using s'(5) m(4,5) by simp
  ultimately show ?case using s'(2,3) m(3) by simp
qed

lemma store_address_fields [simp]:
  "numSensors (store_address g c s) = numSensors s"
  "currentSensor (store_address g c s) = currentSensor s"
  "sensorTicks (store_address g c s) = sensorTicks s"
  "ledTicks (store_address g c s) = ledTicks s"
  "bus_reads (store_address g c s) = bus_reads s"
  "length (sensors (store_address g c s)) = length (sensors s)"
  by (simp_all add: store_address_def Let_def split: prod.splits)

lemma fold_store_address_fields [simp]:
  "numSensors (fold (store_address g) cs s) = numSensors s"
  "currentSensor (fold (store_address g) cs s) = currentSensor s"
  "sensorTicks (fold (store_address g) cs s) = sensorTicks s"
  "ledTicks (fold (store_address g) cs s) = ledTicks s"
  "bus_reads (fold (store_address g) cs s) = bus_reads s"
  "length (sensors (fold (store_address g) cs s)) = length (sensors s)"
  by (induction cs arbitrary: s) simp_all

lemma initSensors_fields:
  "sensorTicks (initSensors d g s) = SENSOR_TICKS"
  "currentSensor (initSensors d g s) = 0"
  "numSensors (initSensors d g s) = min d MAX_SENSORS"
  "bus_reads (initSensors d g s) = bus_reads s"
  "length (sensors (initSensors d g s)) = length (sensors s)"
  by (simp_all add: initSensors_def Let_def)

lemma boundary_state_reached:
  "run_ticks disc (replicate 49 t) (initSensors d (\<lambda>c. replicate 8 0) power_on) =
     Inr (boundary_state d)"
proof -
  have "sensorTicks (initSensors d (\<lambda>c. replicate 8 0) power_on) = 50"
    by (simp add: initSensors_def Let_def SENSOR_TICKS_def)
  then show ?thesis
    using run_ticks_idle [of "replicate 49 t" "initSensors d (\<lambda>c. replicate 8 0) power_on" disc]
    by (simp add: boundary_state_def)
qed

text \<open>
  Claim C1. Let the bus answer a device count \<open>d \<ge> 0\<close>, so that \<open>initSensors\<close> leaves
  \<open>N = min d 4\<close> sensors, the countdown full and the cursor at 0. After \<open>N\<close> complete
  cycles, that is \<open>N * 50\<close> calls of \<open>processSensors\<close>, the driver has been asked for
  the slots \<open>0, 1, ..., N - 1\<close>, each once and in this order, and \<open>currentSensor\<close> is 0
  again. No call faults.
\<close>

theorem scheduler_round_robin:
  assumes "0 \<le> d" and "s0 = initSensors d getAddress power_on"
    and "N = numSensors s0" and "length ts = nat N * 50"
  shows "0 \<le> N \<and> N \<le> MAX_SENSORS \<and>
         (\<exists>s'. run_ticks disc ts s0 = Inr s' \<and>
               map fst (bus_reads s') = map int [0 ..< nat N] \<and> currentSensor s' = 0)"
proof -
  have N: "N = min d MAX_SENSORS" using assms(2,3) by (simp add: initSensors_fields)
  then have bounds: "0 \<le> N" "N \<le> MAX_SENSORS" using assms(1) by (simp_all add: MAX_SENSORS_def)
  have "\<exists>s'. run_ticks disc ts s0 = Inr s' \<and> sensorTicks s' = SENSOR_TICKS \<and>
           numSensors s' = numSensors s0 \<and>
           currentSensor s' = (if int (nat N) = numSensors s0 then 0 else int (nat N)) \<and>
           map fst (bus_reads s') = map fst (bus_reads s0) @ map int [0 ..< nat N]"
    by (rule cycles) (use assms bounds in \<open>simp_all add: initSensors_fields\<close>)
  then show ?thesis using bounds assms(2,3)
    by (auto simp: initSensors_fields power_on_def)
qed

theorem scheduler_round_robin_witness:
  "\<exists>s'. run_ticks (-127) (replicate 100 20) (initSensors 2 (\<lambda>c. replicate 8 0) power_on) = Inr s' \<and>
        map fst (bus_reads s') = [0, 1] \<and> currentSensor s' = 0"
  using scheduler_round_robin [of 2 "initSensors 2 (\<lambda>c. replicate 8 0) power_on" "\<lambda>c. replicate 8 0" 2 "replicate 100 20" "-127"]
  by (simp add: initSensors_fields MAX_SENSORS_def upt_rec)

lemma boundary_state_fields:
  "sensorTicks (boundary_state d) = 1" "currentSensor (boundary_state d) = 0"
  "numSensors (boundary_state d) = min d MAX_SENSORS" "bus_reads (boundary_state d) = []"
  "length (sensors (boundary_state d)) = 4" "ledTicks (boundary_state d) = 0"
  by (simp_all add: boundary_state_def initSensors_fields power_on_def initSensors_def Let_def)

lemma store_address_temperature [simp]:
  "map temperature (sensors (store_address g c s)) = map temperature (sensors s)"
  by (simp add: store_address_def Let_def map_update split: prod.splits)
    (metis list_update_id map_update)

lemma fold_store_address_temperature [simp]:
  "map temperature (sensors (fold (store_address g) cs s)) = map temperature (sensors s)"
  by (induction cs arbitrary: s) simp_all

lemma store_address_led [simp]: "led_builtin (store_address g c s) = led_builtin s"
  by (simp add: store_address_def Let_def split: prod.splits)

lemma fold_store_address_led [simp]:
  "led_builtin (fold (store_address g) cs s) = led_builtin s"
  by (induction cs arbitrary: s) simp_all

lemma initSensors_temperature:
  "map temperature (sensors (initSensors d g s)) = map temperature (sensors s)"
  "led_builtin (initSensors d g s) = led_builtin s"
  "ledTicks (initSensors d g s) = ledTicks s"
  by (simp_all add: initSensors_def Let_def)

lemma boundary_state_temperature:
  "map temperature (sensors (boundary_state d)) = [1111, 2222, 3333, 4444]"
  "led_builtin (boundary_state d) = HIGH"
  by (simp_all add: boundary_state_def initSensors_temperature) (simp_all add: power_on_def)

text \<open>
  Claim C2. At a cycle boundary with the cursor on sensor \<open>i\<close>, whose stored temperature is
  \<open>V\<close>, a read that returns the disconnected sentinel leaves the whole sensor store as it
  was, so \<open>sensors[i]\<close> still holds \<open>V\<close>. The driver was asked once, the message
  \<open>Error reading temperature\<close> is among the lines this call printed, and the cursor has
  moved to the next sensor.
\<close>

theorem failed_read_keeps_value:
  assumes "sensorTicks s = 1" and "0 \<le> i" and "i < numSensors s"
    and "numSensors s \<le> MAX_SENSORS" and "currentSensor s = i"
    and "temperature (sensors s ! nat i) = V"
  shows "\<exists>s'. processSensors disc disc s = Inr s' \<and> sensors s' = sensors s \<and>
           temperature (sensors s' ! nat i) = V \<and>
           bus_reads s' = bus_reads s @ [(i, disc)] \<and>
           Println ''Error reading temperature'' \<in> set (drop (length (serial s)) (serial s')) \<and>
           currentSensor s' = (i + 1) mod numSensors s"
  using assms by (auto simp: processSensors_def Let_def in_table_def)

theorem failed_read_keeps_value_witness:
  "\<exists>s'. processSensors (-127) (-127) (boundary_state 2) = Inr s' \<and> sensors s' = sensors (boundary_state 2) \<and>
        temperature (sensors s' ! 0) = 1111 \<and> currentSensor s' = 1"
proof -
  have t: "temperature (sensors (boundary_state 2) ! nat 0) = 1111"
    using boundary_state_temperature(1) [of 2] boundary_state_fields(5) [of 2]
    by (metis nat_zero_as_int nth_map nth_Cons_0 zero_less_numeral)
  show ?thesis
    using failed_read_keeps_value [of "boundary_state 2" 0 1111 "-127"] t
    by (auto simp: boundary_state_fields MAX_SENSORS_def)
qed

lemma float_to_int_magnitude:
  "\<bar>float_to_int x\<bar> = \<lfloor>\<bar>x\<bar>\<rfloor>" "0 \<le> x \<Longrightarrow> 0 \<le> float_to_int x"
  "x \<le> 0 \<Longrightarrow> float_to_int x \<le> 0"
  by (auto simp: float_to_int_def ceiling_def abs_if not_le) linarith+

lemma processSensors_success:
  assumes "sensorTicks s = 1" and "numSensors s \<noteq> 0" and "in_table (currentSensor s)"
    and "t \<noteq> disc"
  shows "\<exists>s'. processSensors disc t s = Inr s' \<and>
           sensors s' = (sensors s)[nat (currentSensor s) :=
             (sensors s ! nat (currentSensor s))\<lparr>temperature := float_to_int (t * 10)\<rparr>]"
  using assms by (auto simp: processSensors_def Let_def)

text \<open>
  Claim C7, as amended. After a successful read of a value \<open>t\<close> on the grid of the sensor,
  the stored temperature is \<open>t * 10\<close> with its fractional part discarded: its magnitude is
  the integer part of \<open>\<bar>t * 10\<bar>\<close> and its sign that of \<open>t\<close>. It is not rounded to the
  nearest integer.
\<close>

theorem stored_temperature_truncates:
  assumes "sensorTicks s = 1" and "numSensors s \<noteq> 0" and "in_table (currentSensor s)"
    and "length (sensors s) = 4" and "t \<noteq> disc" and "sensor_grid t"
  shows "\<exists>s'. processSensors disc t s = Inr s' \<and>
           \<bar>temperature (sensors s' ! nat (currentSensor s))\<bar> = \<lfloor>\<bar>t * 10\<bar>\<rfloor> \<and>
           (0 \<le> t \<longrightarrow> 0 \<le> temperature (sensors s' ! nat (currentSensor s))) \<and>
           (t \<le> 0 \<longrightarrow> temperature (sensors s' ! nat (currentSensor s)) \<le> 0)"
proof -
  have i: "nat (currentSensor s) < length (sensors s)"
    using assms(3,4) by (auto simp: in_table_def MAX_SENSORS_def)
  have m: "\<bar>float_to_int (t * 10)\<bar> = \<lfloor>\<bar>t * 10\<bar>\<rfloor>" by (rule float_to_int_magnitude)
  have p: "0 \<le> t \<Longrightarrow> 0 \<le> float_to_int (t * 10)" by (rule float_to_int_magnitude) simp
  have n: "t \<le> 0 \<Longrightarrow> float_to_int (t * 10) \<le> 0"
    by (rule float_to_int_magnitude) (simp add: mult_le_0_iff)
  obtain s' where s': "processSensors disc t s = Inr s'"
      "sensors s' = (sensors s)[nat (currentSensor s) :=
             (sensors s ! nat (currentSensor s))\<lparr>temperature := float_to_int (t * 10)\<rparr>]"
    using processSensors_success [OF assms(1,2,3,5)] by blast
  have "temperature (sensors s' ! nat (currentSensor s)) = float_to_int (t * 10)"
    using s'(2) i by simp
  then show ?thesis using s'(1) m p n by simp
qed

theorem stored_temperature_truncates_witness:
  "\<exists>s'. processSensors (-127) (337 / 16) (boundary_state 1) = Inr s' \<and>
        \<bar>temperature (sensors s' ! 0)\<bar> = 210"
proof -
  have "\<lfloor>1685 / 8 :: rat\<rfloor> = 210" by (simp add: floor_eq_iff)
  then show ?thesis
    using stored_temperature_truncates [of "boundary_state 1" "337 / 16" "-127"]
    by (auto simp: boundary_state_fields in_table_def MAX_SENSORS_def sensor_grid_def)
qed

text \<open>
  Claim C7 as stated fails: the reading 21.0625 (337/16, on the grid and not the sentinel)
  is stored as 210, while \<open>round (21.0625 * 10)\<close> is 211.
\<close>

theorem stored_temperature_not_rounded:
  "outcome (map temperature \<circ> sensors) (processSensors (-127) (337 / 16) (boundary_state 1))
     = Some [210, 2222, 3333, 4444] \<and>
   round (337 / 16 * 10 :: rat) = 211 \<and> sensor_grid (337 / 16) \<and> (337 / 16 :: rat) \<noteq> -127"
proof -
  have f: "\<lfloor>1685 / 8 :: rat\<rfloor> = 210" "\<lfloor>1689 / 8 :: rat\<rfloor> = 211"
    by (simp_all add: floor_eq_iff)
  have "processSensors (-127) (337 / 16) (boundary_state 1) =
          Inr (say [Println ''''] ((say [Println ''New polling cycle'', Print ''  Sensor '', PrintNum 1 10, Print '' - '', PrintFloat (337/16), Println '' C''] (boundary_state 1))
             \<lparr>sensorTicks := SENSOR_TICKS, ledTicks := LED_TICKS, led_builtin := LOW,
               bus_reads := [(0, 337 / 16)],
               sensors := (sensors (boundary_state 1))[0 := (sensors (boundary_state 1) ! 0)\<lparr>temperature := 210\<rparr>],
               currentSensor := 0\<rparr>))"
    by (simp add: processSensors_def Let_def boundary_state_fields in_table_def MAX_SENSORS_def
        float_to_int_def say_def ledOn_def f)
  then show ?thesis
    using boundary_state_temperature(1) [of 1]
    by (simp add: outcome_def map_update sensor_grid_def round_def f)
qed

text \<open>
  Claim C9, as amended. At a cycle boundary with no sensor, \<open>processSensors\<close> prints
  \<open>No temperature sensors!!!!\<close> and returns with the cursor, the sensor store and the log
  of driver calls unchanged. The countdown has been reset, and the activity indication has
  been triggered: \<open>ledOn(LED_TICKS)\<close> comes before the test of the sensor count.
\<close>

theorem no_sensors_cycle:
  assumes "sensorTicks s = 1" and "numSensors s = 0"
  shows "\<exists>s'. processSensors disc t s = Inr s' \<and>
           currentSensor s' = currentSensor s \<and> sensors s' = sensors s \<and>
           bus_reads s' = bus_reads s \<and> numSensors s' = 0 \<and>
           serial s' = serial s @ [Println ''No temperature sensors!!!!''] \<and>
           sensorTicks s' = SENSOR_TICKS \<and>
           ledTicks s' = LED_TICKS \<and> led_builtin s' = LOW"
  using assms by (simp add: processSensors_def Let_def)

theorem no_sensors_cycle_witness:
  "\<exists>s'. processSensors (-127) 20 (boundary_state 0) = Inr s' \<and> currentSensor s' = 0 \<and>
        sensors s' = sensors (boundary_state 0) \<and> ledTicks s' = 2 \<and> led_builtin s' = LOW"
  using no_sensors_cycle [of "boundary_state 0" "-127" 20]
  by (auto simp: boundary_state_fields MAX_SENSORS_def LED_TICKS_def)

text \<open>
  Claim C9 as stated fails: with no sensor, the LED dark and its timer at 0, the call at
  the cycle boundary sets the timer to 2 and the pin to \<open>LOW\<close>, which lights the LED.
\<close>

theorem led_lit_without_sensors:
  "numSensors (boundary_state 0) = 0 \<and> sensorTicks (boundary_state 0) = 1 \<and>
   ledTicks (boundary_state 0) = 0 \<and> led_builtin (boundary_state 0) = HIGH \<and>
   outcome ledTicks (processSensors (-127) 20 (boundary_state 0)) = Some 2 \<and>
   outcome led_builtin (processSensors (-127) 20 (boundary_state 0)) = Some LOW"
  by (simp add: outcome_def processSensors_def Let_def boundary_state_fields boundary_state_temperature
      MAX_SENSORS_def LED_TICKS_def)

section \<open>Properties of the object tree\<close>

lemma add_sensor_nodes_eq:
  "add_sensor_nodes P c tree = tree @ [address_node P c, temperature_node P c]"
  by (simp add: add_sensor_nodes_def miblistadd_def mibsetvalue_def mibsetcallback_def
      address_node_def temperature_node_def Let_def nth_append list_update_append)

lemma fold_add_sensor_nodes:
  "fold (add_sensor_nodes P) cs tree =
     tree @ concat (map (\<lambda>c. [address_node P c, temperature_node P c]) cs)"
  by (induction cs arbitrary: tree) (simp_all add: add_sensor_nodes_eq)

lemma initMibTree_eq:
  "initMibTree B P s [] =
     system_nodes B @
     concat (map (\<lambda>c. [address_node P c, temperature_node P c]) [0 ..< nat (numSensors s)])"
  by (simp add: initMibTree_def miblistadd_def mibsetvalue_def mibsetcallback_def
      system_nodes_def Let_def fold_add_sensor_nodes)

lemma find_sensor_nodes:
  "find (\<lambda>n. oid n = SENSOR_OID P @ [3, Suc j])
        (concat (map (\<lambda>c. [address_node P c, temperature_node P c]) cs)) =
     (if j \<in> set cs then Some (temperature_node P j) else None)"
  by (induction cs) (auto simp: address_node_def temperature_node_def)

lemma find_system_nodes:
  "find (\<lambda>n. oid n = SENSOR_OID P @ [3, Suc j]) (system_nodes B) = None"
proof -
  have "B @ [1, x, 0] \<noteq> P @ [56234, 1, 2, 1, 3, Suc j]" for x
  proof
    assume "B @ [1, x, 0] = P @ [56234, 1, 2, 1, 3, Suc j]"
    then have "last (B @ [1, x, 0]) = last (P @ [56234, 1, 2, 1, 3, Suc j])" by simp
    then show False by simp
  qed
  then show ?thesis by (simp add: system_nodes_def SENSOR_OID_def)
qed

lemma find_append_None:
  "find p xs = None \<Longrightarrow> find p (xs @ ys) = find p ys"
  by (induction xs) (auto split: if_splits)

lemma find_temperature_node:
  assumes "j < nat (numSensors s0)"
  shows "find (\<lambda>n. oid n = SENSOR_OID P @ [3, Suc j]) (initMibTree B P s0 []) =
           Some (temperature_node P j)"
  using assms
  by (simp add: initMibTree_eq find_append_None [OF find_system_nodes] find_sensor_nodes)

lemma resolve_temperature:
  assumes "1 \<le> k" and "k \<le> numSensors s0" and "numSensors s0 \<le> MAX_SENSORS"
  shows "find (\<lambda>n. oid n = SENSOR_OID P @ [3, nat k]) (initMibTree B P s0 []) =
           Some (temperature_node P (nat (k - 1))) \<and>
         getTemperature s (temperature_node P (nat (k - 1))) =
           Inr ((temperature_node P (nat (k - 1)))
                  \<lparr>uval := Intval (temperature (sensors s ! nat (k - 1)))\<rparr>) \<and>
         resolve (initMibTree B P s0 []) s now (SENSOR_OID P @ [3, nat k]) =
           Inr (Some (INTEGER, Intval (temperature (sensors s ! nat (k - 1)))))"
proof -
  define j where "j = nat (k - 1)"
  have k: "nat k = Suc j" and j: "j < nat (numSensors s0)" and j4: "int j < MAX_SENSORS"
    using assms by (simp_all add: j_def)
  have f: "find (\<lambda>n. oid n = SENSOR_OID P @ [3, nat k]) (initMibTree B P s0 []) =
             Some (temperature_node P j)"
    unfolding k by (rule find_temperature_node [OF j])
  have g: "getTemperature s (temperature_node P j) =
             Inr ((temperature_node P j)\<lparr>uval := Intval (temperature (sensors s ! j))\<rparr>)"
    using j4 by (simp add: getTemperature_def temperature_node_def in_table_def Let_def)
  have tn: "callback (temperature_node P j) = Some cb_getTemperature"
      "dataType (temperature_node P j) = INTEGER"
    by (simp_all add: temperature_node_def)
  have "resolve (initMibTree B P s0 []) s now (SENSOR_OID P @ [3, nat k]) =
           Inr (Some (INTEGER, Intval (temperature (sensors s ! j))))"
    unfolding resolve_def f by (simp add: tn g)
  then show ?thesis using f g by (simp add: j_def)
qed

lemma processSensors_step_cases:
  assumes "processSensors disc t s = Inr s'"
  shows "length (sensors s') = length (sensors s) \<and>
         (\<exists>new. bus_reads s' = bus_reads s @ new \<and>
            (\<forall>j < length (sensors s).
               temperature (sensors s' ! j) = temperature (sensors s ! j) \<or>
               read_ok disc (int j) new))"
proof (cases "sensorTicks s = 1")
  case False
  then show ?thesis using assms by (auto simp: processSensors_idle)
next
  case tick: True
  show ?thesis
  proof (cases "numSensors s = 0")
    case True
    then show ?thesis using assms tick by (auto simp: processSensors_def Let_def)
  next
    case some: False
    show ?thesis
    proof (cases "in_table (currentSensor s)")
      case False
      then show ?thesis using assms tick some
        by (auto simp: processSensors_def Let_def split: if_splits)
    next
      case inb: True
      show ?thesis
      proof (cases "t = disc")
        case True
        then show ?thesis using assms tick some inb
          by (auto simp: processSensors_def Let_def split: if_splits)
      next
        case ok: False
        have len: "length (sensors s') = length (sensors s)"
          and log: "bus_reads s' = bus_reads s @ [(currentSensor s, t)]"
          and upd: "sensors s' = (sensors s)[nat (currentSensor s) :=
             (sensors s ! nat (currentSensor s))\<lparr>temperature := float_to_int (t * 10)\<rparr>]"
          using assms tick some inb ok
          by (auto simp: processSensors_def Let_def split: if_splits)
        have "temperature (sensors s' ! j) = temperature (sensors s ! j) \<or>
              read_ok disc (int j) [(currentSensor s, t)]" if "j < length (sensors s)" for j
        proof (cases "j = nat (currentSensor s)")
          case True
          then have "int j = currentSensor s" using inb by (simp add: in_table_def)
          then show ?thesis using ok by (simp add: read_ok_def)
        next
          case False
          then show ?thesis using upd by simp
        qed
        then show ?thesis using len log by blast
      qed
    qed
  qed
qed

lemma read_ok_append:
  "read_ok disc i (xs @ ys) \<longleftrightarrow> read_ok disc i xs \<or> read_ok disc i ys"
  by (auto simp: read_ok_def)

lemma run_ticks_untouched:
  assumes "run_ticks disc ts s = Inr s'"
  shows "length (sensors s') = length (sensors s) \<and>
         (\<exists>new. bus_reads s' = bus_reads s @ new \<and>
            (\<forall>j < length (sensors s).
               temperature (sensors s' ! j) = temperature (sensors s ! j) \<or>
               read_ok disc (int j) new))"
  using assms
proof (induction ts arbitrary: s)
  case Nil
  then show ?case by simp
next
  case (Cons t ts)
  then obtain m where m: "processSensors disc t s = Inr m" "run_ticks disc ts m = Inr s'"
    by (auto split: sum.splits)
  from processSensors_step_cases [OF m(1)] obtain n1 where
      a: "length (sensors m) = length (sensors s)" "bus_reads m = bus_reads s @ n1"
      "\<forall>j < length (sensors s). temperature (sensors m ! j) = temperature (sensors s ! j) \<or>
               read_ok disc (int j) n1"
    by blast
  from Cons.IH [OF m(2)] obtain n2 where
      b: "length (sensors s') = length (sensors m)" "bus_reads s' = bus_reads m @ n2"
      "\<forall>j < length (sensors m). temperature (sensors s' ! j) = temperature (sensors m ! j) \<or>
               read_ok disc (int j) n2"
    by blast
  have "bus_reads s' = bus_reads s @ (n1 @ n2)" using a(2) b(2) by simp
  moreover have "\<forall>j < length (sensors s).
      temperature (sensors s' ! j) = temperature (sensors s ! j) \<or> read_ok disc (int j) (n1 @ n2)"
    using a(1,3) b(3) unfolding read_ok_append by metis
  ultimately show ?case using a(1) b(1) by (metis (no_types, lifting))
qed

lemma initSensors_placeholders:
  "j < 4 \<Longrightarrow> temperature (sensors (initSensors d g power_on) ! j) = placeholder j"
proof -
  assume j: "j < 4"
  have m: "map temperature (sensors (initSensors d g power_on)) = [1111, 2222, 3333, 4444]"
    by (simp add: initSensors_temperature) (simp add: power_on_def)
  have l: "length (sensors (initSensors d g power_on)) = 4"
    by (simp add: initSensors_fields power_on_def)
  have "temperature (sensors (initSensors d g power_on) ! j) =
          map temperature (sensors (initSensors d g power_on)) ! j"
    using j l by simp
  also have "\<dots> = placeholder j"
    unfolding m using j by (auto simp: placeholder_def less_Suc_eq numeral_eq_Suc)
  finally show ?thesis .
qed

text \<open>
  Claim C10. Let \<open>initSensors\<close> start from the globals at power-on and find \<open>N\<close> sensors, let
  the tree be registered then, and let \<open>1 \<le> k \<le> N\<close>. After any run of the scheduler in
  which sensor \<open>k - 1\<close> has had no successful read, resolving \<open>SENSOR_OID.3.k\<close> gives the
  placeholder of the slot, \<open>1111 * k\<close>: 1111, 2222, 3333 or 4444, and so neither zero nor
  the sentinel.
\<close>

theorem placeholder_until_first_read:
  assumes "s0 = initSensors d getAddress power_on"
    and "1 \<le> k" and "k \<le> numSensors s0"
    and "run_ticks disc ts s0 = Inr s"
    and "\<not> read_ok disc (k - 1) (bus_reads s)"
  shows "resolve (initMibTree B P s0 []) s now (SENSOR_OID P @ [3, nat k]) =
           Inr (Some (INTEGER, Intval (1111 * k)))"
proof -
  have n4: "numSensors s0 \<le> MAX_SENSORS" using assms(1) by (simp add: initSensors_fields)
  have l0: "length (sensors s0) = 4" "bus_reads s0 = []"
    using assms(1) by (simp_all add: initSensors_fields power_on_def)
  have j: "nat (k - 1) < 4" using assms(2,3) n4 by (simp add: MAX_SENSORS_def)
  from run_ticks_untouched [OF assms(4)] obtain new where
      new: "bus_reads s = bus_reads s0 @ new"
      "\<forall>j < length (sensors s0). temperature (sensors s ! j) = temperature (sensors s0 ! j) \<or>
               read_ok disc (int j) new"
    by blast
  have "\<not> read_ok disc (int (nat (k - 1))) new"
    using assms(2,5) new(1) l0(2) by simp
  then have "temperature (sensors s ! nat (k - 1)) = temperature (sensors s0 ! nat (k - 1))"
    using new(2) j l0(1) by auto
  also have "\<dots> = placeholder (nat (k - 1))"
    unfolding assms(1) by (rule initSensors_placeholders [OF j])
  also have "\<dots> = 1111 * k" using assms(2) by (simp add: placeholder_def)
  finally have "temperature (sensors s ! nat (k - 1)) = 1111 * k" .
  then show ?thesis
    using resolve_temperature [OF assms(2,3) n4, of P B s now] by simp
qed

theorem placeholder_until_first_read_witness:
  "\<exists>s. run_ticks (-127) (replicate 50 (-127)) (initSensors 2 (\<lambda>c. replicate 8 0) power_on) = Inr s \<and>
       bus_reads s = [(0, -127)] \<and>
       resolve (initMibTree [1,3,6,1,2,1] [1,3,6,1,4,1] (initSensors 2 (\<lambda>c. replicate 8 0) power_on) [])
         s 0 (SENSOR_OID [1,3,6,1,4,1] @ [3, 1]) = Inr (Some (INTEGER, Intval 1111))"
proof -
  let ?s0 = "initSensors 2 (\<lambda>c. replicate 8 0) power_on"
  obtain s where s: "run_ticks (-127) (replicate 50 (-127)) ?s0 = Inr s"
      "bus_reads s = bus_reads ?s0 @ [(currentSensor ?s0, last (replicate 50 (-127)))]"
    using one_cycle [of ?s0 "replicate 50 (-127)" "-127"]
    by (auto simp: initSensors_fields MAX_SENSORS_def)
  have log: "bus_reads s = [(0, -127)]"
    using s(2) by (simp add: initSensors_fields power_on_def)
  then have no: "\<not> read_ok (-127) (1 - 1) (bus_reads s)" by (simp add: read_ok_def)
  have "resolve (initMibTree [1,3,6,1,2,1] [1,3,6,1,4,1] ?s0 []) s 0
          (SENSOR_OID [1,3,6,1,4,1] @ [3, nat 1]) = Inr (Some (INTEGER, Intval (1111 * 1)))"
    by (rule placeholder_until_first_read [OF refl _ _ s(1) no])
      (simp_all add: initSensors_fields MAX_SENSORS_def)
  then show ?thesis using s(1) log by simp
qed

text \<open>
  Claim C3. Let the tree be registered in a state \<open>s0\<close> with \<open>N\<close> sensors and let
  \<open>1 \<le> k \<le> N\<close>. Resolving the identifier \<open>SENSOR_OID.3.k\<close> against any later state \<open>s\<close>
  gives the integer \<open>sensors[k - 1].temperature\<close> of \<open>s\<close>, not the 0 stored in the node at
  registration. In particular, once the scheduler has stored a successful read of sensor
  \<open>k - 1\<close>, resolution gives the value that read stored.
\<close>

theorem resolve_temperature_live:
  assumes "1 \<le> k" and "k \<le> numSensors s0" and "numSensors s0 \<le> MAX_SENSORS"
    and "length (sensors s) = 4"
  shows "resolve (initMibTree B P s0 []) s now (SENSOR_OID P @ [3, nat k]) =
           Inr (Some (INTEGER, Intval (temperature (sensors s ! nat (k - 1))))) \<and>
         (sensorTicks s = 1 \<and> numSensors s \<noteq> 0 \<and> currentSensor s = k - 1 \<and> t \<noteq> disc \<and>
          processSensors disc t s = Inr s' \<longrightarrow>
            resolve (initMibTree B P s0 []) s' now (SENSOR_OID P @ [3, nat k]) =
              Inr (Some (INTEGER, Intval (float_to_int (t * 10)))))"
proof (intro conjI impI)
  show "resolve (initMibTree B P s0 []) s now (SENSOR_OID P @ [3, nat k]) =
           Inr (Some (INTEGER, Intval (temperature (sensors s ! nat (k - 1)))))"
    using resolve_temperature [OF assms(1-3)] by blast
next
  assume a: "sensorTicks s = 1 \<and> numSensors s \<noteq> 0 \<and> currentSensor s = k - 1 \<and> t \<noteq> disc \<and>
          processSensors disc t s = Inr s'"
  have inb: "in_table (currentSensor s)" using a assms(1-3) by (simp add: in_table_def)
  obtain s'' where s'': "processSensors disc t s = Inr s''"
      "sensors s'' = (sensors s)[nat (currentSensor s) :=
             (sensors s ! nat (currentSensor s))\<lparr>temperature := float_to_int (t * 10)\<rparr>]"
    using processSensors_success [of s t disc] a inb by blast
  have "s'' = s'" using a s''(1) by simp
  moreover have "nat (k - 1) < length (sensors s)"
    using assms(1-4) by (simp add: MAX_SENSORS_def)
  ultimately have "temperature (sensors s' ! nat (k - 1)) = float_to_int (t * 10)"
    using s''(2) a by simp
  then show "resolve (initMibTree B P s0 []) s' now (SENSOR_OID P @ [3, nat k]) =
              Inr (Some (INTEGER, Intval (float_to_int (t * 10))))"
    using resolve_temperature [OF assms(1-3), of P B s' now] by simp
qed

theorem resolve_temperature_live_witness:
  "resolve (initMibTree [1,3,6,1,2,1] [1,3,6,1,4,1] (boundary_state 2) []) (boundary_state 2) 0
     (SENSOR_OID [1,3,6,1,4,1] @ [3, 1]) = Inr (Some (INTEGER, Intval 1111)) \<and>
   (\<exists>s'. processSensors (-127) (337 / 16) (boundary_state 2) = Inr s' \<and>
      resolve (initMibTree [1,3,6,1,2,1] [1,3,6,1,4,1] (boundary_state 2) []) s' 0
        (SENSOR_OID [1,3,6,1,4,1] @ [3, 1]) = Inr (Some (INTEGER, Intval 210)))"
proof -
  have "temperature (sensors (boundary_state 2) ! 0) =
          map temperature (sensors (boundary_state 2)) ! 0"
    by (simp add: boundary_state_fields)
  then have t: "temperature (sensors (boundary_state 2) ! 0) = 1111"
    by (simp add: boundary_state_temperature)
  have f: "float_to_int (337 / 16 * 10) = 210"
    by (simp add: float_to_int_def floor_eq_iff)
  obtain s' where s': "processSensors (-127) (337 / 16) (boundary_state 2) = Inr s'"
    using processSensors_success [of "boundary_state 2" "337 / 16" "-127"]
    by (auto simp: boundary_state_fields in_table_def MAX_SENSORS_def)
  show ?thesis
    using resolve_temperature_live [of 1 "boundary_state 2" "boundary_state 2"
        "[1,3,6,1,2,1]" "[1,3,6,1,4,1]" 0 "337 / 16" "-127" s'] t f s'
    by (simp add: boundary_state_fields MAX_SENSORS_def)
qed

section \<open>Properties of the configuration store and the web servers\<close>

lemma getConfig_erased: "getConfig 200 erased web_reset = Inr config_mode"
  by (simp add: config_mode_def getConfig_def erased_def strcpy_def Let_def wsay_def
      DEFAULT_SSID_def DEFAULT_PSK_def RO_COMMUNITY_def EEPROM_VALID_def)

lemma config_mode_fields:
  "length (httpRequest config_mode) = HTTP_REQUEST_LEN"
  "length (httpParams config_mode) = HTTP_PARAMS_LEN"
  "length (staSSID (eepromData config_mode)) = 64"
  "length (staPSK (eepromData config_mode)) = 64"
  "length (roCommunity (eepromData config_mode)) = 64"
  "eeprom_commits config_mode = []" "http_log config_mode = []"
  "eepromSize (eepromData config_mode) = 200"
  by (simp_all add: config_mode_def wsay_def web_reset_def HTTP_REQUEST_LEN_def HTTP_PARAMS_LEN_def
      DEFAULT_SSID_def DEFAULT_PSK_def RO_COMMUNITY_def)

lemma cstr_strcpy:
  assumes "NUL \<notin> set src" and "strcpy dst src = Inr r"
  shows "cstr r = src"
proof -
  have "r = src @ NUL # drop (length src + 1) dst"
    using assms(2) by (auto simp: strcpy_def split: if_splits)
  moreover have "takeWhile (\<lambda>c. c \<noteq> NUL) (src @ NUL # xs) = src" for xs
    using assms(1) by (induction src) auto
  ultimately show ?thesis by (simp add: cstr_def)
qed

lemma strcpy_fits: "length src < length dst \<Longrightarrow> \<exists>r. strcpy dst src = Inr r"
  by (simp add: strcpy_def)

text \<open>
  Claim C4. Whatever record the EEPROM holds, \<open>getConfig\<close> returns without fault. If the
  stored size is the size of the record and the validity marker is \<open>EEPROM_VALID\<close>, the
  configuration in memory is the stored record. In every other case the identity, the
  secret and the community are all three the defaults of the firmware, and size and marker
  are set. The three fields are read as C strings: \<open>strcpy\<close> ends each default with a
  NUL, and the bytes of the array behind it are not part of the value.
\<close>

theorem getConfig_valid_or_defaults:
  assumes "length (staSSID stored) = 64" and "length (staPSK stored) = 64"
    and "length (roCommunity stored) = 64"
  shows "\<exists>w'. getConfig sz stored w = Inr w' \<and>
           (if eepromSize stored = sz \<and> dataValid stored = EEPROM_VALID
            then eepromData w' = stored
            else cstr (staSSID (eepromData w')) = DEFAULT_SSID \<and>
                 cstr (staPSK (eepromData w')) = DEFAULT_PSK \<and>
                 cstr (roCommunity (eepromData w')) = RO_COMMUNITY \<and>
                 eepromSize (eepromData w') = sz \<and> dataValid (eepromData w') = EEPROM_VALID)"
proof (cases "eepromSize stored = sz \<and> dataValid stored = EEPROM_VALID")
  case True
  then show ?thesis by (simp add: getConfig_def Let_def wsay_def)
next
  case False
  obtain a where a: "strcpy (staSSID stored) DEFAULT_SSID = Inr a"
    using strcpy_fits [of DEFAULT_SSID "staSSID stored"] assms(1) by (auto simp: DEFAULT_SSID_def)
  obtain b where b: "strcpy (staPSK stored) DEFAULT_PSK = Inr b"
    using strcpy_fits [of DEFAULT_PSK "staPSK stored"] assms(2) by (auto simp: DEFAULT_PSK_def)
  obtain c where c: "strcpy (roCommunity stored) RO_COMMUNITY = Inr c"
    using strcpy_fits [of RO_COMMUNITY "roCommunity stored"] assms(3) by (auto simp: RO_COMMUNITY_def)
  have "cstr a = DEFAULT_SSID" by (rule cstr_strcpy [OF _ a]) (simp add: DEFAULT_SSID_def NUL_def)
  moreover have "cstr b = DEFAULT_PSK" by (rule cstr_strcpy [OF _ b]) (simp add: DEFAULT_PSK_def NUL_def)
  moreover have "cstr c = RO_COMMUNITY" by (rule cstr_strcpy [OF _ c]) (simp add: RO_COMMUNITY_def NUL_def)
  ultimately show ?thesis
    using False a b c by (auto simp: getConfig_def Let_def wsay_def)
qed

theorem getConfig_valid_or_defaults_witness:
  "\<exists>w'. getConfig 200 erased web_reset = Inr w' \<and>
        cstr (staSSID (eepromData w')) = ''ballacurmudgeon'' \<and>
        cstr (staPSK (eepromData w')) = ''scaramanga'' \<and>
        cstr (roCommunity (eepromData w')) = ''public''"
  using getConfig_valid_or_defaults [of erased 200 web_reset]
  by (auto simp: erased_def DEFAULT_SSID_def DEFAULT_PSK_def RO_COMMUNITY_def)

lemma splice_step:
  assumes "n < length buf"
  shows "take (Suc n) (buf[n := c]) @ l @ drop (Suc (n + length l)) (buf[n := c]) =
         take n buf @ (c # l) @ drop (n + length (c # l)) buf"
proof -
  have "take (Suc n) (buf[n := c]) = take n buf @ [c]"
    using assms by (simp add: take_Suc_conv_app_nth)
  moreover have "drop (Suc (n + length l)) (buf[n := c]) = drop (Suc (n + length l)) buf"
    by simp
  ultimately show ?thesis by simp
qed

lemma client_reads_bytes:
  assumes "LF \<notin> set l" and "CR \<notin> set l" and "urlPtr + length l \<le> HTTP_REQUEST_LEN"
    and "length (httpRequest w) = HTTP_REQUEST_LEN"
  shows "httpWebServer_client (map (Avail now) l @ rest) urlPtr ms w =
           httpWebServer_client rest (urlPtr + length l) (if l = [] then ms else now)
             (w\<lparr>httpRequest := take urlPtr (httpRequest w) @ l @
                                  drop (urlPtr + length l) (httpRequest w)\<rparr>)"
  using assms
proof (induction l arbitrary: urlPtr ms w)
  case Nil
  then show ?case by simp
next
  case (Cons c l)
  let ?w = "w\<lparr>httpRequest := (httpRequest w)[urlPtr := c]\<rparr>"
  have n: "urlPtr < length (httpRequest w)" using Cons.prems(3,4) by simp
  have c: "c \<noteq> LF" "c \<noteq> CR" "\<not> HTTP_REQUEST_LEN \<le> urlPtr"
    using Cons.prems(1,2,3) by auto
  have step: "httpWebServer_client (map (Avail now) (c # l) @ rest) urlPtr ms w =
          httpWebServer_client (map (Avail now) l @ rest) (urlPtr + 1) now ?w"
    using c by simp
  have ih: "httpWebServer_client (map (Avail now) l @ rest) (urlPtr + 1) now ?w =
          httpWebServer_client rest (urlPtr + 1 + length l) (if l = [] then now else now)
             (?w\<lparr>httpRequest := take (urlPtr + 1) (httpRequest ?w) @ l @
                                  drop (urlPtr + 1 + length l) (httpRequest ?w)\<rparr>)"
    by (rule Cons.IH) (use Cons.prems in simp_all)
  show ?case
    unfolding step ih using splice_step [OF n, of c l] by simp
qed

lemma status_reads_bytes:
  assumes "LF \<notin> set l" and "CR \<notin> set l" and "urlPtr + length l \<le> HTTP_REQUEST_LEN"
    and "length (httpRequest w) = HTTP_REQUEST_LEN"
  shows "httpStatusGetRequest_loop (map (Avail now) l @ rest) urlPtr ms w =
           httpStatusGetRequest_loop rest (urlPtr + length l) (if l = [] then ms else now)
             (w\<lparr>httpRequest := take urlPtr (httpRequest w) @ l @
                                  drop (urlPtr + length l) (httpRequest w)\<rparr>)"
  using assms
proof (induction l arbitrary: urlPtr ms w)
  case Nil
  then show ?case by simp
next
  case (Cons c l)
  let ?w = "w\<lparr>httpRequest := (httpRequest w)[urlPtr := c]\<rparr>"
  have n: "urlPtr < length (httpRequest w)" using Cons.prems(3,4) by simp
  have c: "c \<noteq> LF" "c \<noteq> CR" "\<not> HTTP_REQUEST_LEN \<le> urlPtr"
    using Cons.prems(1,2,3) by auto
  have step: "httpStatusGetRequest_loop (map (Avail now) (c # l) @ rest) urlPtr ms w =
          httpStatusGetRequest_loop (map (Avail now) l @ rest) (urlPtr + 1) now ?w"
    using c by simp
  have ih: "httpStatusGetRequest_loop (map (Avail now) l @ rest) (urlPtr + 1) now ?w =
          httpStatusGetRequest_loop rest (urlPtr + 1 + length l) (if l = [] then now else now)
             (?w\<lparr>httpRequest := take (urlPtr + 1) (httpRequest ?w) @ l @
                                  drop (urlPtr + 1 + length l) (httpRequest ?w)\<rparr>)"
    by (rule Cons.IH) (use Cons.prems in simp_all)
  show ?case
    unfolding step ih using splice_step [OF n, of c l] by simp
qed

lemma client_overflow:
  assumes "LF \<notin> set l" and "CR \<notin> set l" and "length l = HTTP_REQUEST_LEN"
    and "length (httpRequest w) = HTTP_REQUEST_LEN" and "c \<noteq> CR"
  shows "httpWebServer_client (map (Avail now) l @ Avail now' c # rest) 0 ms w = Inl OutOfBounds"
    and "httpStatusGetRequest_loop (map (Avail now) l @ Avail now' c # rest) 0 ms w = Inl OutOfBounds"
  using assms client_reads_bytes [of l 0 w now "Avail now' c # rest" ms]
    status_reads_bytes [of l 0 w now "Avail now' c # rest" ms]
  by simp_all

text \<open>
  The timeout tests of the two loops. With the operands as \<open>httpWebServer\<close> has them, any
  idle round within the first two seconds after \<open>ms\<close> closes the connection, while
  \<open>httpStatusGetRequest\<close> goes on waiting.
\<close>

lemma swapped_difference:
  fixes ms now :: "32 word"
  assumes "now \<noteq> ms" and "now - ms \<le> 2000"
  shows "ms - now > 2000"
proof -
  have ne: "unat now \<noteq> unat ms" using assms(1) by (simp add: word_unat_eq_iff)
  have b: "unat ms < 2 ^ 32" "unat now < 2 ^ 32"
    using unsigned_less [of ms, where ?'a = nat] unsigned_less [of now, where ?'a = nat] by simp_all
  have "unat (now - ms) \<le> 2000" using assms(2) by (simp add: word_le_nat_alt)
  then have "2000 < unat (ms - now)"
    using ne b by (simp add: unat_sub_if_size word_size split: if_splits)
  then show ?thesis by (simp add: word_less_nat_alt)
qed

lemma config_server_closes_at_once:
  assumes "now \<noteq> ms" and "now - ms \<le> 2000"
  shows "httpWebServer_client (Quiet now # ps) urlPtr ms w =
           Inr (hlog [Stop] (wsay [Println ''HTTP idle timeout''] w), ms)"
    and "httpStatusGetRequest_loop (Quiet now # ps) urlPtr ms w =
           httpStatusGetRequest_loop ps urlPtr ms w"
  using swapped_difference [OF assms] assms(2) by (simp_all add: not_less [symmetric])

text \<open>
  Claim C5 fails in the configuration mode. With the last byte at 1000 ms and nothing to
  read at 1001 ms, \<open>httpWebServer\<close> computes \<open>ms - millis()\<close>, which wraps around to
  \<open>2^32 - 1\<close>, and closes the connection as timed out after one millisecond. The status
  server computes \<open>millis() - ms\<close> and keeps the same connection open.
\<close>

theorem config_server_idle_timeout_after_1ms:
  "httpWebServer_client [Quiet 1001] 0 1000 config_mode =
     Inr (hlog [Stop] (wsay [Println ''HTTP idle timeout''] config_mode), 1000) \<and>
   httpStatusGetRequest_loop [Quiet 1001] 0 1000 config_mode = Inr config_mode"
  by simp

lemma replicate_256: "replicate 256 x = replicate 255 x @ [x]"
proof -
  have "(256::nat) = Suc 255" by simp
  then show ?thesis by (simp only: replicate_Suc replicate_append_same)
qed

text \<open>
  Claim C6 fails in both servers. The byte 256 of a line without newline is written at
  offset 255 of \<open>httpRequest\<close>, one past its end, and so is the NUL that ends a line of 255
  bytes: nothing is dropped and the write is not checked.
\<close>

theorem long_request_line_overruns_buffer:
  "httpWebServer_client (deliver 1 (replicate 256 (CHR ''A''))) 0 0 config_mode = Inl OutOfBounds \<and>
   httpStatusGetRequest_loop (deliver 1 (replicate 256 (CHR ''A''))) 0 0 config_mode = Inl OutOfBounds \<and>
   httpWebServer_client (deliver 1 (replicate 255 (CHR ''A'') @ [LF])) 0 0 config_mode = Inl OutOfBounds \<and>
   httpStatusGetRequest_loop (deliver 1 (replicate 255 (CHR ''A'') @ [LF])) 0 0 config_mode = Inl OutOfBounds"
proof -
  have l: "LF \<notin> set (replicate 255 (CHR ''A''))" "CR \<notin> set (replicate 255 (CHR ''A''))"
      "length (replicate 255 (CHR ''A'')) = HTTP_REQUEST_LEN"
    by (simp_all add: LF_def CR_def HTTP_REQUEST_LEN_def)
  have c: "CHR ''A'' \<noteq> CR" "LF \<noteq> CR" by (simp_all add: LF_def CR_def)
  note a = client_overflow [OF l config_mode_fields(1) c(1), of 1 1 "[]" 0]
  note b = client_overflow [OF l config_mode_fields(1) c(2), of 1 1 "[]" 0]
  show ?thesis
    unfolding replicate_256 deliver_def using a b by simp
qed

lemma dispatch_save:
  assumes "httpRequest w = save_line @ NUL # tail"
    and "length (httpParams w) = 16"
    and "length (staSSID (eepromData w)) = 64" and "length (staPSK (eepromData w)) = 64"
    and "length (roCommunity (eepromData w)) = 64"
  shows "\<exists>w'. httpHandleGetRequest 4 w = Inr w' \<and>
           cstr (staSSID (eepromData w')) = ''MyNet'' \<and>
           cstr (staPSK (eepromData w')) = ''Secret'' \<and>
           cstr (roCommunity (eepromData w')) = ''public'' \<and>
           eeprom_commits w' = eeprom_commits w @ [(eepromSize (eepromData w'), eepromData w')] \<and>
           eepromSize (eepromData w') = eepromSize (eepromData w) \<and>
           http_log w' = http_log w @ [Handler ''httpSaveConfiguration'']"
  using assms
  by (simp add: save_line_def strcpy_def wsay_def hlog_def cstr_def cstr_at_def strtok_def Let_def
    httpHandleGetRequest_def httpSaveConfiguration_def save_param_def httpParseParam_def
    httpParamHandlers_def getRequests_def httpSetSsid_def httpSetPassword_def httpSetRoCommunity_def
    saveConfig_def shown_def NUL_def HTTP_PARAMS_LEN_def numeral_2_eq_2 numeral_3_eq_3)

lemma cap_line:
  assumes "length l < length buf"
  shows "(take 0 buf @ l @ drop (0 + length l) buf)[length l := c] = l @ c # drop (length l + 1) buf"
proof -
  have "drop (length l) buf = buf ! length l # drop (Suc (length l)) buf"
    using assms by (simp add: Cons_nth_drop_Suc)
  then show ?thesis by (simp add: list_update_append)
qed

lemma client_line:
  assumes "LF \<notin> set l" and "CR \<notin> set l" and "length l < HTTP_REQUEST_LEN"
    and "length (httpRequest w) = HTTP_REQUEST_LEN"
  shows "httpWebServer_client (deliver now (l @ [CR, LF])) 0 ms w =
           (let w1 = w\<lparr>httpRequest := l @ NUL # drop (length l + 1) (httpRequest w)\<rparr>;
                w2 = wsay [Println (cstr (httpRequest w1))] w1
            in case (if take 3 (cstr (httpRequest w2)) = ''GET''
                     then httpHandleGetRequest 4 w2 else Inr w2) of
                 Inl e \<Rightarrow> Inl e
               | Inr w3 \<Rightarrow> Inr (hlog [Flush, Stop] w3, now))"
proof -
  have ne: "CR \<noteq> LF" by (simp add: CR_def LF_def)
  have lt: "length l < length (httpRequest w)" using assms(3,4) by simp
  have "httpWebServer_client (deliver now (l @ [CR, LF])) 0 ms w =
        httpWebServer_client (map (Avail now) l @ [Avail now CR, Avail now LF]) 0 ms w"
    by (simp add: deliver_def)
  also have "\<dots> = httpWebServer_client [Avail now CR, Avail now LF] (0 + length l)
             (if l = [] then ms else now)
             (w\<lparr>httpRequest := take 0 (httpRequest w) @ l @ drop (0 + length l) (httpRequest w)\<rparr>)"
    by (rule client_reads_bytes) (use assms in simp_all)
  also have "\<dots> = (let w1 = w\<lparr>httpRequest := l @ NUL # drop (length l + 1) (httpRequest w)\<rparr>;
                w2 = wsay [Println (cstr (httpRequest w1))] w1
            in case (if take 3 (cstr (httpRequest w2)) = ''GET''
                     then httpHandleGetRequest 4 w2 else Inr w2) of
                 Inl e \<Rightarrow> Inl e
               | Inr w3 \<Rightarrow> Inr (hlog [Flush, Stop] w3, now))"
    using ne assms(3) cap_line [OF lt, of NUL] by (simp add: Let_def)
  finally show ?thesis .
qed

text \<open>
  Claim C8. Let a connection of the configuration mode deliver the line
  \<open>GET /config.html?ssid=MyNet&password=Secret&community=public HTTP/1.1\<close>, ended by
  carriage return and newline. Whatever the configuration, the request buffer and the
  parameter table held before, the connection is served without fault; afterwards the
  configuration in memory has the identity \<open>MyNet\<close>, the secret \<open>Secret\<close> and the
  community \<open>public\<close>, and \<open>saveConfig\<close> has written this record to the EEPROM, over the
  number of bytes its size field gives, and committed it. Only the handler of
  \<open>/config.html\<close> ran.
\<close>

theorem save_request_updates_configuration:
  assumes "length (httpRequest w) = HTTP_REQUEST_LEN" and "length (httpParams w) = HTTP_PARAMS_LEN"
    and "length (staSSID (eepromData w)) = 64" and "length (staPSK (eepromData w)) = 64"
    and "length (roCommunity (eepromData w)) = 64"
  shows "\<exists>w' ms'. httpWebServer_client (deliver now (save_line @ [CR, LF])) 0 ms w = Inr (w', ms') \<and>
           cstr (staSSID (eepromData w')) = ''MyNet'' \<and>
           cstr (staPSK (eepromData w')) = ''Secret'' \<and>
           cstr (roCommunity (eepromData w')) = ''public'' \<and>
           eeprom_commits w' = eeprom_commits w @ [(eepromSize (eepromData w'), eepromData w')] \<and>
           eepromSize (eepromData w') = eepromSize (eepromData w) \<and>
           http_log w' = http_log w @ [Handler ''httpSaveConfiguration'', Flush, Stop]"
proof -
  define w1 where "w1 = w\<lparr>httpRequest := save_line @ NUL # drop (length save_line + 1) (httpRequest w)\<rparr>"
  define w2 where "w2 = wsay [Println (cstr (httpRequest w1))] w1"
  have get: "take 3 (cstr (httpRequest w2)) = ''GET''"
    by (simp add: w2_def w1_def wsay_def save_line_def cstr_def NUL_def)
  have pre: "LF \<notin> set save_line" "CR \<notin> set save_line" "length save_line < HTTP_REQUEST_LEN"
    by (simp_all add: save_line_def LF_def CR_def HTTP_REQUEST_LEN_def)
  note line = client_line [OF pre assms(1), of now ms, unfolded Let_def, folded w1_def,
      folded w2_def]
  have run: "httpWebServer_client (deliver now (save_line @ [CR, LF])) 0 ms w =
            (case httpHandleGetRequest 4 w2 of Inl e \<Rightarrow> Inl e
             | Inr w3 \<Rightarrow> Inr (hlog [Flush, Stop] w3, now))"
    using line get by simp
  have buf: "httpRequest w2 = save_line @ NUL # drop (length save_line + 1) (httpRequest w)"
    by (simp add: w2_def w1_def wsay_def)
  have rest: "length (httpParams w2) = 16" "length (staSSID (eepromData w2)) = 64"
      "length (staPSK (eepromData w2)) = 64" "length (roCommunity (eepromData w2)) = 64"
      "eeprom_commits w2 = eeprom_commits w" "http_log w2 = http_log w"
      "eepromSize (eepromData w2) = eepromSize (eepromData w)"
    using assms by (simp_all add: w2_def w1_def wsay_def HTTP_PARAMS_LEN_def)
  obtain w3 where w3: "httpHandleGetRequest 4 w2 = Inr w3"
      "cstr (staSSID (eepromData w3)) = ''MyNet''"
      "cstr (staPSK (eepromData w3)) = ''Secret''"
      "cstr (roCommunity (eepromData w3)) = ''public''"
      "eeprom_commits w3 = eeprom_commits w2 @ [(eepromSize (eepromData w3), eepromData w3)]"
      "eepromSize (eepromData w3) = eepromSize (eepromData w2)"
      "http_log w3 = http_log w2 @ [Handler ''httpSaveConfiguration'']"
    using dispatch_save [OF buf rest(1-4)] by blast
  show ?thesis
    unfolding run w3(1) using w3(2-7) rest(5-7) by (simp add: hlog_def)
qed

theorem save_request_updates_configuration_witness:
  "\<exists>w' ms'. httpWebServer_client (deliver 5 (save_line @ [CR, LF])) 0 0 config_mode = Inr (w', ms') \<and>
     cstr (staSSID (eepromData w')) = ''MyNet'' \<and> cstr (staPSK (eepromData w')) = ''Secret'' \<and>
     cstr (roCommunity (eepromData w')) = ''public'' \<and>
     eeprom_commits w' = [(200, eepromData w')] \<and>
     http_log w' = [Handler ''httpSaveConfiguration'', Flush, Stop]"
  using save_request_updates_configuration [OF config_mode_fields(1-5), of 5 0]
  by (auto simp: config_mode_fields)

end
